theory Spec2Isabelle
  imports Complex_Main "HOL-Library.Log_Nat"
begin

section \<open>Numbers, lanes and judgments\<close>

text \<open>
  A rhythm game in JavaScript: the game engine with tap and hold notes, the score state
  with its grade, the grid conversion of charts, the procedural chart generator and the
  audio clock. The presenter (the DOM) appears only where the engine reads it back:
  whether a lane exists, whether a note's element is still in the document, the window
  width.

  A JavaScript number is an IEEE 754 double. The finite doubles are rationals, and every
  arithmetic operation returns the double nearest to the exact result, ties going to the
  even significand: \<open>fl\<close> is this rounding, for a result in the normal range (no
  overflow and no subnormal number arises from times, positions and counts). Every
  arithmetic expression of the source is written out as it stands, with \<open>fl\<close> around each
  operation; a decimal literal such as \<^verbatim>\<open>0.8\<close> is \<open>fl (8 / 10)\<close>. Times are
  milliseconds, positions are pixels. Counters that the source only ever increments by
  one are natural numbers and points are integers: both stay far below \<open>2 ^ 53\<close>, where
  the operations on integers are exact.
\<close>

definition pow2 :: "int \<Rightarrow> rat" where
  "pow2 e = (if e \<ge> 0 then 2 ^ nat e else 1 / 2 ^ nat (- e))"

text \<open>Rounding to the nearest integer, a tie to the even one.\<close>

definition roundEven :: "rat \<Rightarrow> int" where
  "roundEven x =
     (let f = \<lfloor>x\<rfloor>; d = x - rat_of_int f
      in if d < 1 / 2 then f else if d > 1 / 2 then f + 1 else if even f then f else f + 1)"

text \<open>The binary exponent of a non-zero number: \<open>pow2 (exponent x) \<le> \<bar>x\<bar> < pow2 (exponent x + 1)\<close>.\<close>

definition exponent :: "rat \<Rightarrow> int" where
  "exponent x =
     (let k = bitlen (fst (quotient_of \<bar>x\<bar>)) - bitlen (snd (quotient_of \<bar>x\<bar>))
      in if pow2 k \<le> \<bar>x\<bar> then k else k - 1)"

text \<open>A double has a significand of 53 bits.\<close>

definition fl :: "rat \<Rightarrow> rat" where
  "fl x = (if x = 0 then 0
           else (let e = exponent x - 52 in rat_of_int (roundEven (x / pow2 e)) * pow2 e))"

datatype lane = Top | Bottom

datatype noteType = Normal | Hold | Single

datatype judgement = Jperfect | Jgreat | Jgood | Jmiss | Jhold

datatype grade = GradeS | GradeA | GradeB | GradeC | GradeD

datatype screen = MenuScreen | GameScreen | SettingsScreen | GameOverScreen

section \<open>GameStateManager: scores, statistics and the grade\<close>

record gameStateManager =
  current :: int
  high :: int
  combo :: nat
  maxCombo :: nat
  perfect :: nat
  great :: nat
  good :: nat
  miss :: nat
  holdCount :: nat
  currentState :: screen

text \<open>\<^verbatim>\<open>this.stats[judgment]++\<close>\<close>

fun bumpStat :: "judgement \<Rightarrow> gameStateManager \<Rightarrow> gameStateManager" where
  "bumpStat Jperfect m = m\<lparr>perfect := perfect m + 1\<rparr>"
| "bumpStat Jgreat m = m\<lparr>great := great m + 1\<rparr>"
| "bumpStat Jgood m = m\<lparr>good := good m + 1\<rparr>"
| "bumpStat Jmiss m = m\<lparr>miss := miss m + 1\<rparr>"
| "bumpStat Jhold m = m\<lparr>holdCount := holdCount m + 1\<rparr>"

definition updateScore :: "int \<Rightarrow> judgement \<Rightarrow> gameStateManager \<Rightarrow> gameStateManager" where
  "updateScore points j m =
     (let m1 = bumpStat j (m\<lparr>current := current m + points\<rparr>)
      in if j \<noteq> Jmiss
         then (let m2 = m1\<lparr>combo := combo m1 + 1\<rparr>
               in m2\<lparr>maxCombo := max (maxCombo m2) (combo m2)\<rparr>)
         else m1\<lparr>combo := 0\<rparr>)"

definition resetGame :: "gameStateManager \<Rightarrow> gameStateManager" where
  "resetGame m = m\<lparr>current := 0, combo := 0, maxCombo := 0,
     perfect := 0, great := 0, good := 0, miss := 0, holdCount := 0\<rparr>"

definition checkHighScore :: "gameStateManager \<Rightarrow> gameStateManager" where
  "checkHighScore m = (if current m > high m then m\<lparr>high := current m\<rparr> else m)"

text \<open>\<^verbatim>\<open>setState\<close>, for a screen that exists in the document.\<close>

definition setState :: "screen \<Rightarrow> gameStateManager \<Rightarrow> gameStateManager" where
  "setState newState m =
     (let m1 = m\<lparr>currentState := newState\<rparr>
      in if newState = MenuScreen then resetGame m1 else m1)"

definition endGame :: "gameStateManager \<Rightarrow> gameStateManager" where
  "endGame m = checkHighScore (setState GameOverScreen m)"

text \<open>A counter as the double it is in \<^verbatim>\<open>this.stats\<close>.\<close>

definition count :: "nat \<Rightarrow> rat" where
  "count n = fl (rat_of_nat n)"

definition calculateGrade :: "gameStateManager \<Rightarrow> grade" where
  "calculateGrade m =
     (let total = fl (fl (fl (count (perfect m) + count (great m)) + count (good m)) + count (miss m))
      in if total = 0 then GradeD
         else (let accuracy =
                     fl (fl (fl (count (perfect m) + fl (count (great m) * fl (8 / 10)))
                               + fl (count (good m) * fl (5 / 10))) / total)
               in if accuracy \<ge> fl (95 / 100) then GradeS
                  else if accuracy \<ge> fl (90 / 100) then GradeA
                  else if accuracy \<ge> fl (80 / 100) then GradeB
                  else if accuracy \<ge> fl (70 / 100) then GradeC
                  else GradeD))"

text \<open>The grading rule in the specification's words, over the four closed counts, in exact
  arithmetic.\<close>

definition spec_accuracy :: "nat \<Rightarrow> nat \<Rightarrow> nat \<Rightarrow> nat \<Rightarrow> rat" where
  "spec_accuracy p g gd totalJudged =
     (rat_of_nat p + rat_of_nat g * (8 / 10) + rat_of_nat gd * (5 / 10)) / rat_of_nat totalJudged"

definition spec_threshold :: "rat \<Rightarrow> grade" where
  "spec_threshold a =
     (if a \<ge> 95 / 100 then GradeS else if a \<ge> 90 / 100 then GradeA
      else if a \<ge> 80 / 100 then GradeB else if a \<ge> 70 / 100 then GradeC else GradeD)"

definition spec_grade :: "nat \<Rightarrow> nat \<Rightarrow> nat \<Rightarrow> nat \<Rightarrow> grade" where
  "spec_grade p g gd ms =
     (if p + g + gd + ms = 0 then GradeD else spec_threshold (spec_accuracy p g gd (p + g + gd + ms)))"

section \<open>GameEngine: state\<close>

text \<open>
  A live note is a JavaScript object shared between \<^verbatim>\<open>this.notes\<close> (here \<open>liveNotes\<close>), the
  \<^verbatim>\<open>activeHoldNotes\<close> map and the timer closures, so notes live in a store of objects
  and the containers hold references. \<open>attached\<close> stands for
  \<^verbatim>\<open>note.element.parentElement\<close> being non-null; \<open>holdStartTime\<close> is \<^verbatim>\<open>null\<close>
  until a hold starts.
\<close>

record liveNote =
  attached :: bool
  lane :: lane
  hitTime :: rat
  ntype :: noteType
  duration :: rat
  spawnTime :: rat
  hit :: bool
  isHolding :: bool
  holdStartTime :: "rat option"
  holdScore :: int
  screenPosition :: rat

record chartNote =
  cSpawnTime :: rat
  cHitTime :: rat
  cTopLane :: bool
  cBottomLane :: bool
  cType :: noteType
  cDuration :: rat

text \<open>
  \<open>activeHoldNotes\<close> is a JavaScript \<^verbatim>\<open>Map\<close>: an association list in insertion order.
  \<open>laneElement\<close> says whether \<^verbatim>\<open>document.getElementById(lane + '-lane')\<close> finds the lane,
  \<open>innerWidth\<close> is \<^verbatim>\<open>window.innerWidth\<close>, \<open>flowActive\<close> says that the interval of
  \<^verbatim>\<open>startNoteFlow\<close> is running, \<open>patternIndex\<close> and \<open>noteId\<close> are its counters, and
  \<open>removeTimers\<close> lists the notes whose element \<^verbatim>\<open>completeHoldEffect\<close> removes after its
  timeout of 500 ms. \<open>nextRef\<close> is the next free reference of the store.
  \<^verbatim>\<open>startTime\<close> is \<^verbatim>\<open>null\<close> before the first start, which is 0 in the subtractions
  that read it.
\<close>

record gameEngine =
  gsm :: gameStateManager
  isPlaying :: bool
  isPaused :: bool
  liveNotes :: "nat list"
  objects :: "nat \<Rightarrow> liveNote"
  nextRef :: nat
  activeHoldNotes :: "(lane \<times> nat) list"
  songProgress :: rat
  songDuration :: rat
  demoChart :: "chartNote list"
  chartIndex :: nat
  startTime :: rat
  innerWidth :: rat
  laneElement :: "lane \<Rightarrow> bool"
  flowActive :: bool
  patternIndex :: nat
  noteId :: nat
  removeTimers :: "nat list"

datatype action = press | release

text \<open>\<^verbatim>\<open>Map.prototype.set\<close>, \<^verbatim>\<open>get\<close> and \<^verbatim>\<open>delete\<close>.\<close>

fun mapSet :: "'k \<Rightarrow> 'v \<Rightarrow> ('k \<times> 'v) list \<Rightarrow> ('k \<times> 'v) list" where
  "mapSet k v [] = [(k, v)]"
| "mapSet k v ((k', v') # m) = (if k' = k then (k, v) # m else (k', v') # mapSet k v m)"

fun mapGet :: "('k \<times> 'v) list \<Rightarrow> 'k \<Rightarrow> 'v option" where
  "mapGet [] k = None"
| "mapGet ((k', v') # m) k = (if k' = k then Some v' else mapGet m k)"

fun mapDelete :: "'k \<Rightarrow> ('k \<times> 'v) list \<Rightarrow> ('k \<times> 'v) list" where
  "mapDelete k [] = []"
| "mapDelete k ((k', v') # m) = (if k' = k then m else (k', v') # mapDelete k m)"

text \<open>JavaScript coercions of a nullable number: in arithmetic \<^verbatim>\<open>null\<close> is 0, and as
  a condition both \<^verbatim>\<open>null\<close> and 0 are false.\<close>

definition toNumber :: "rat option \<Rightarrow> rat" where
  "toNumber x = (case x of None \<Rightarrow> 0 | Some t \<Rightarrow> t)"

definition truthy :: "rat option \<Rightarrow> bool" where
  "truthy x = (case x of None \<Rightarrow> False | Some t \<Rightarrow> t \<noteq> 0)"

section \<open>GameEngine: the demo chart and note creation\<close>

record pattern =
  pTop :: bool
  pBottom :: bool
  pType :: noteType
  pDuration :: rat

definition demoPatterns :: "pattern list" where
  "demoPatterns =
    [\<lparr>pTop = True, pBottom = False, pType = Normal, pDuration = 0\<rparr>,
     \<lparr>pTop = False, pBottom = True, pType = Normal, pDuration = 0\<rparr>,
     \<lparr>pTop = True, pBottom = True, pType = Normal, pDuration = 0\<rparr>,
     \<lparr>pTop = False, pBottom = False, pType = Normal, pDuration = 0\<rparr>,
     \<lparr>pTop = True, pBottom = False, pType = Hold, pDuration = 1600\<rparr>,
     \<lparr>pTop = False, pBottom = True, pType = Normal, pDuration = 0\<rparr>,
     \<lparr>pTop = True, pBottom = False, pType = Normal, pDuration = 0\<rparr>,
     \<lparr>pTop = False, pBottom = True, pType = Hold, pDuration = 2400\<rparr>]"

text \<open>
  \<^verbatim>\<open>createDemoChart\<close> reads \<^verbatim>\<open>this.travelTime\<close>, which is \<^verbatim>\<open>undefined\<close> (\<open>None\<close>)
  when the constructor calls it: \<^verbatim>\<open>spawnTime\<close> is then \<^verbatim>\<open>NaN\<close> and the test
  \<^verbatim>\<open>spawnTime >= 0\<close> is false.
\<close>

definition demoChartEntry :: "rat option \<Rightarrow> nat \<Rightarrow> chartNote list" where
  "demoChartEntry travelTime i =
     (let pat = demoPatterns ! (i mod length demoPatterns);
          hitTime = fl (rat_of_nat i * 800)
      in case travelTime of
           None \<Rightarrow> []
         | Some tt \<Rightarrow>
             (let spawnTime = fl (hitTime - tt)
              in if spawnTime \<ge> 0
                 then [\<lparr>cSpawnTime = spawnTime, cHitTime = hitTime, cTopLane = pTop pat,
                        cBottomLane = pBottom pat, cType = pType pat, cDuration = pDuration pat\<rparr>]
                 else []))"

definition createDemoChart :: "rat option \<Rightarrow> chartNote list" where
  "createDemoChart travelTime = concat (map (demoChartEntry travelTime) [0..<120])"

definition newNote :: "lane \<Rightarrow> rat \<Rightarrow> noteType \<Rightarrow> rat \<Rightarrow> rat \<Rightarrow> rat \<Rightarrow> liveNote" where
  "newNote l ht ty dur spawned width =
     \<lparr>attached = True, lane = l, hitTime = ht, ntype = ty, duration = dur,
      spawnTime = spawned, hit = False, isHolding = False, holdStartTime = None,
      holdScore = 0, screenPosition = width\<rparr>"

definition constructor :: "gameStateManager \<Rightarrow> rat \<Rightarrow> (lane \<Rightarrow> bool) \<Rightarrow> gameEngine" where
  "constructor m width lanes =
     \<lparr>gsm = m, isPlaying = False, isPaused = False, liveNotes = [],
      objects = (\<lambda>_. newNote Top 0 Normal 0 0 0), nextRef = 0, activeHoldNotes = [],
      songProgress = 0, songDuration = 60000, demoChart = createDemoChart None,
      chartIndex = 0, startTime = 0, innerWidth = width, laneElement = lanes,
      flowActive = False, patternIndex = 0, noteId = 0, removeTimers = []\<rparr>"

text \<open>\<open>now\<close> is the reading of \<^verbatim>\<open>performance.now()\<close>; one reading serves a whole
  callback. The note is created only when the presenter returns an element.\<close>

definition createNote :: "lane \<Rightarrow> rat \<Rightarrow> noteType \<Rightarrow> rat \<Rightarrow> rat \<Rightarrow> gameEngine \<Rightarrow> gameEngine" where
  "createNote l ht ty dur now s =
     (if laneElement s l
      then s\<lparr>objects := (objects s)(nextRef s := newNote l ht ty dur (fl (now - startTime s)) (innerWidth s)),
             liveNotes := liveNotes s @ [nextRef s],
             nextRef := nextRef s + 1\<rparr>
      else s)"

section \<open>GameEngine: session control\<close>

definition startGame :: "rat \<Rightarrow> gameEngine \<Rightarrow> gameEngine" where
  "startGame now s =
     s\<lparr>isPlaying := True, isPaused := False, songProgress := 0, chartIndex := 0,
       liveNotes := [], startTime := now, gsm := setState GameScreen (gsm s)\<rparr>"

definition pauseGame :: "gameEngine \<Rightarrow> gameEngine" where
  "pauseGame s = s\<lparr>isPaused := \<not> isPaused s\<rparr>"

text \<open>\<^verbatim>\<open>uiManager.removeNote(note.element)\<close> detaches the element.\<close>

definition removeNote :: "nat \<Rightarrow> gameEngine \<Rightarrow> gameEngine" where
  "removeNote r s = s\<lparr>objects := (objects s)(r := (objects s r)\<lparr>attached := False\<rparr>)\<rparr>"

definition clearAllNotes :: "gameEngine \<Rightarrow> gameEngine" where
  "clearAllNotes s = (fold removeNote (liveNotes s) s)\<lparr>liveNotes := []\<rparr>"

definition stopGame :: "gameEngine \<Rightarrow> gameEngine" where
  "stopGame s =
     (let s1 = clearAllNotes (s\<lparr>isPlaying := False, isPaused := False, flowActive := False\<rparr>);
          s2 = s1\<lparr>activeHoldNotes := []\<rparr>
      in s2\<lparr>gsm := endGame (gsm s2)\<rparr>)"

section \<open>GameEngine: judging\<close>

definition hitZonePosition :: "gameEngine \<Rightarrow> rat" where
  "hitZonePosition s = fl (innerWidth s * fl (15 / 100))"

definition calculateJudgment :: "gameEngine \<Rightarrow> liveNote \<Rightarrow> judgement" where
  "calculateJudgment s n =
     (let distance = \<bar>fl (screenPosition n - hitZonePosition s)\<bar>
      in if distance \<le> 30 then Jperfect
         else if distance \<le> 60 then Jgreat
         else if distance \<le> 90 then Jgood
         else Jmiss)"

fun calculateScore :: "judgement \<Rightarrow> int" where
  "calculateScore Jperfect = 300"
| "calculateScore Jgreat = 200"
| "calculateScore Jgood = 100"
| "calculateScore Jmiss = 0"
| "calculateScore Jhold = 0"

text \<open>The body of the \<^verbatim>\<open>forEach\<close> of \<^verbatim>\<open>findHittableNote\<close>; the accumulator is
  \<^verbatim>\<open>(closestNote, closestDistance)\<close>, with \<open>None\<close> for \<^verbatim>\<open>null\<close> and \<^verbatim>\<open>Infinity\<close>.\<close>

definition closer :: "gameEngine \<Rightarrow> nat \<Rightarrow> nat option \<times> rat option \<Rightarrow> nat option \<times> rat option" where
  "closer s r acc =
     (let distance = \<bar>fl (screenPosition (objects s r) - hitZonePosition s)\<bar>
      in if (case snd acc of None \<Rightarrow> True | Some closestDistance \<Rightarrow> distance < closestDistance)
            \<and> distance < 100
         then (Some r, Some distance)
         else acc)"

definition findHittableNote :: "gameEngine \<Rightarrow> lane \<Rightarrow> nat option" where
  "findHittableNote s l =
     (let laneNotes = filter (\<lambda>r. lane (objects s r) = l \<and> \<not> hit (objects s r)
                                   \<and> attached (objects s r)) (liveNotes s)
      in if laneNotes = [] then None
         else fst (fold (closer s) laneNotes (None, None)))"

definition nearbyNotes :: "gameEngine \<Rightarrow> lane \<Rightarrow> nat list" where
  "nearbyNotes s l =
     filter (\<lambda>r. lane (objects s r) = l \<and> \<not> hit (objects s r)
                  \<and> \<bar>fl (screenPosition (objects s r) - fl (innerWidth s * fl (15 / 100)))\<bar> < 100)
       (liveNotes s)"

text \<open>\<^verbatim>\<open>this.gameStateManager.updateScore(points, judgment)\<close>\<close>

definition score :: "int \<Rightarrow> judgement \<Rightarrow> gameEngine \<Rightarrow> gameEngine" where
  "score points j s = s\<lparr>gsm := updateScore points j (gsm s)\<rparr>"

definition handleKeyPress :: "lane \<Rightarrow> rat \<Rightarrow> gameEngine \<Rightarrow> gameEngine" where
  "handleKeyPress l now s =
     (case findHittableNote s l of
        Some r \<Rightarrow>
          (let hitNote = objects s r;
               judgment = calculateJudgment s hitNote
           in if ntype hitNote = Hold
              then score (calculateScore judgment) judgment
                     (s\<lparr>objects := (objects s)(r := hitNote\<lparr>isHolding := True,
                                          holdStartTime := Some (fl (now - startTime s)), hit := True\<rparr>),
                        activeHoldNotes := mapSet l r (activeHoldNotes s)\<rparr>)
              else removeNote r
                     (score (calculateScore judgment) judgment
                        (s\<lparr>objects := (objects s)(r := hitNote\<lparr>hit := True\<rparr>)\<rparr>)))
      | None \<Rightarrow> (if nearbyNotes s l \<noteq> [] then score 0 Jmiss s else s))"

definition completeHoldNote :: "nat \<Rightarrow> judgement \<Rightarrow> gameEngine \<Rightarrow> gameEngine" where
  "completeHoldNote r judgment s =
     (let s1 = (if judgment = Jperfect then score 500 Jperfect s
                else if judgment = Jgreat then score 300 Jgreat s
                else if judgment = Jgood then score 100 Jgood s
                else s)
      in s1\<lparr>objects := (objects s1)(r := (objects s1 r)\<lparr>isHolding := False\<rparr>),
            activeHoldNotes := mapDelete (lane (objects s1 r)) (activeHoldNotes s1),
            removeTimers := removeTimers s1 @ [r]\<rparr>)"

definition handleKeyRelease :: "lane \<Rightarrow> rat \<Rightarrow> gameEngine \<Rightarrow> gameEngine" where
  "handleKeyRelease l now s =
     (case mapGet (activeHoldNotes s) l of
        None \<Rightarrow> s
      | Some r \<Rightarrow>
          (let holdNote = objects s r
           in if isHolding holdNote
              then (let currentTime = fl (now - startTime s);
                        holdDuration = fl (currentTime - toNumber (holdStartTime holdNote));
                        maxHoldTime = duration holdNote
                    in if holdDuration \<ge> maxHoldTime
                       then completeHoldNote r Jperfect s
                       else (let completionPercentage = fl (holdDuration / maxHoldTime);
                                 judgment = (if completionPercentage \<ge> fl (9 / 10) then Jgreat
                                             else if completionPercentage \<ge> fl (7 / 10) then Jgood
                                             else Jmiss)
                             in completeHoldNote r judgment s))
              else s))"

definition handleInput :: "lane \<Rightarrow> action \<Rightarrow> rat \<Rightarrow> gameEngine \<Rightarrow> gameEngine" where
  "handleInput l a now s =
     (if \<not> isPlaying s \<or> isPaused s then s
      else case a of press \<Rightarrow> handleKeyPress l now s | release \<Rightarrow> handleKeyRelease l now s)"

section \<open>GameEngine: the frame update\<close>

text \<open>The body of the \<^verbatim>\<open>while\<close> loop of \<^verbatim>\<open>spawnNotes\<close>, run over the chart entries from
  \<^verbatim>\<open>chartIndex\<close> on; it stops at the first entry that is not yet due.\<close>

fun spawnLoop :: "rat \<Rightarrow> rat \<Rightarrow> chartNote list \<Rightarrow> gameEngine \<Rightarrow> gameEngine" where
  "spawnLoop now gameTime [] s = s"
| "spawnLoop now gameTime (c # cs) s =
     (if cSpawnTime c \<le> gameTime
      then (let s1 = (if cTopLane c then createNote Top (cHitTime c) (cType c) (cDuration c) now s else s);
                s2 = (if cBottomLane c then createNote Bottom (cHitTime c) (cType c) (cDuration c) now s1 else s1)
            in spawnLoop now gameTime cs (s2\<lparr>chartIndex := chartIndex s2 + 1\<rparr>))
      else s)"

definition spawnNotes :: "rat \<Rightarrow> rat \<Rightarrow> gameEngine \<Rightarrow> gameEngine" where
  "spawnNotes now gameTime s = spawnLoop now gameTime (drop (chartIndex s) (demoChart s)) s"

text \<open>The body of the loop of \<^verbatim>\<open>updateHoldNotes\<close> for one entry of the map.\<close>

definition holdStep :: "rat \<Rightarrow> nat \<Rightarrow> gameEngine \<Rightarrow> gameEngine" where
  "holdStep gameTime r s =
     (let holdNote = objects s r
      in if isHolding holdNote \<and> truthy (holdStartTime holdNote)
         then (let holdDuration = fl (gameTime - toNumber (holdStartTime holdNote));
                   maxHoldTime = duration holdNote;
                   progressivePoints = \<lfloor>fl (holdDuration / 100)\<rfloor> * 10;
                   newScore = progressivePoints - holdScore holdNote;
                   s1 = (if newScore > 0
                         then score newScore Jhold
                                (s\<lparr>objects := (objects s)(r := holdNote\<lparr>holdScore := progressivePoints\<rparr>)\<rparr>)
                         else s)
               in if holdDuration \<ge> maxHoldTime then completeHoldNote r Jperfect s1 else s1)
         else s)"

text \<open>Iterating a \<^verbatim>\<open>Map\<close> visits the entries in insertion order and skips an entry
  deleted before its turn: the loop runs over the keys present at the start and looks each
  one up again.\<close>

fun holdLoop :: "rat \<Rightarrow> lane list \<Rightarrow> gameEngine \<Rightarrow> gameEngine" where
  "holdLoop gameTime [] s = s"
| "holdLoop gameTime (l # ls) s =
     holdLoop gameTime ls
       (case mapGet (activeHoldNotes s) l of None \<Rightarrow> s | Some r \<Rightarrow> holdStep gameTime r s)"

definition updateHoldNotes :: "rat \<Rightarrow> gameEngine \<Rightarrow> gameEngine" where
  "updateHoldNotes gameTime s = holdLoop gameTime (map fst (activeHoldNotes s)) s"

definition update :: "rat \<Rightarrow> gameEngine \<Rightarrow> gameEngine" where
  "update now s =
     (if \<not> isPlaying s \<or> isPaused s then s
      else (let currentTime = now;
                gameTime = fl (currentTime - startTime s);
                s1 = s\<lparr>songProgress := fl (fl (gameTime / songDuration s) * 100)\<rparr>;
                s2 = spawnNotes now gameTime s1;
                s3 = updateHoldNotes gameTime s2
            in if songProgress s3 \<ge> 100 then stopGame s3 else s3))"

section \<open>GameEngine: timers\<close>

text \<open>One run of the interval callback of \<^verbatim>\<open>startNoteSliding\<close> for the note \<open>r\<close>.\<close>

definition slide :: "nat \<Rightarrow> gameEngine \<Rightarrow> gameEngine" where
  "slide r s =
     (let n = objects s r
      in if hit n \<or> \<not> attached n then s
         else (let n1 = n\<lparr>screenPosition := fl (screenPosition n - 5)\<rparr>;
                   s1 = s\<lparr>objects := (objects s)(r := n1)\<rparr>
               in if screenPosition n1 < - 100
                  then (let s2 = (if \<not> hit n1 then score 0 Jmiss s1 else s1);
                            s3 = removeNote r s2
                        in s3\<lparr>liveNotes := filter (\<lambda>x. x \<noteq> r) (liveNotes s3)\<rparr>)
                  else s1))"

definition flowPatterns :: "nat list" where
  "flowPatterns =
    [1, 0, 2, 0, 1, 2, 0, 1,
     0, 2, 1, 0, 2, 0, 1, 0,
     1, 1, 2, 0, 4, 0, 2, 2,
     0, 1, 0, 2, 0, 1, 0, 2,
     3, 0, 0, 1, 0, 5, 0, 0,
     1, 2, 1, 2, 0, 0, 3, 0,
     0, 0, 1, 0, 0, 2, 0, 1,
     2, 1, 0, 1, 2, 0, 1, 2]"

definition startNoteFlow :: "gameEngine \<Rightarrow> gameEngine" where
  "startNoteFlow s = s\<lparr>flowActive := True, patternIndex := 0, noteId := 0\<rparr>"

definition flowSpawn :: "lane \<Rightarrow> noteType \<Rightarrow> rat \<Rightarrow> rat \<Rightarrow> gameEngine \<Rightarrow> gameEngine" where
  "flowSpawn l ty dur now s =
     (createNote l (rat_of_nat (noteId s)) ty dur now s)\<lparr>noteId := noteId s + 1\<rparr>"

definition noteFlowTick :: "rat \<Rightarrow> gameEngine \<Rightarrow> gameEngine" where
  "noteFlowTick now s =
     (if \<not> flowActive s then s
      else if \<not> isPlaying s then s\<lparr>flowActive := False\<rparr>
      else (let pat = flowPatterns ! (patternIndex s mod length flowPatterns);
                s1 = (if pat = 1 \<or> pat = 3 then flowSpawn Top Normal 0 now s else s);
                s2 = (if pat = 2 \<or> pat = 3 then flowSpawn Bottom Normal 0 now s1 else s1);
                s3 = (if pat = 4 then flowSpawn Top Hold 1800 now s2 else s2);
                s4 = (if pat = 5 then flowSpawn Bottom Hold 1800 now s3 else s3)
            in s4\<lparr>patternIndex := patternIndex s4 + 1\<rparr>))"

section \<open>GameEngine: events\<close>

text \<open>
  Everything that reaches the engine from outside: the session calls, an animation frame,
  an input, and the timer callbacks (the slide interval of a note, the note flow, and the
  delayed \<^verbatim>\<open>removeNote\<close> of \<^verbatim>\<open>completeHoldEffect\<close>). Time stamps are readings of
  \<^verbatim>\<open>performance.now()\<close>. A slide interval exists only for a note that was created, a
  removal timeout only for a completed hold.
\<close>

datatype event =
    EStart rat
  | EPause
  | EStop
  | EFrame rat
  | EInput lane action rat
  | ESlide nat
  | EFlowStart
  | EFlowTick rat
  | ERemove nat

fun step :: "event \<Rightarrow> gameEngine \<Rightarrow> gameEngine" where
  "step (EStart now) s = startGame now s"
| "step EPause s = pauseGame s"
| "step EStop s = stopGame s"
| "step (EFrame now) s = update now s"
| "step (EInput l a now) s = handleInput l a now s"
| "step (ESlide r) s = (if r < nextRef s then slide r s else s)"
| "step EFlowStart s = startNoteFlow s"
| "step (EFlowTick now) s = noteFlowTick now s"
| "step (ERemove r) s =
     (if r \<in> set (removeTimers s)
      then (removeNote r s)\<lparr>removeTimers := remove1 r (removeTimers s)\<rparr> else s)"

definition run :: "event list \<Rightarrow> gameEngine \<Rightarrow> gameEngine" where
  "run es s = fold step es s"

section \<open>The earlier GameEngine (scripts/game-engine.js)\<close>

text \<open>
  \<^verbatim>\<open>scripts/game-engine.js\<close> is the engine before hold notes: the same class without
  \<^verbatim>\<open>activeHoldNotes\<close>, with every note a tap note. Its \<^verbatim>\<open>startGame\<close>, \<^verbatim>\<open>pauseGame\<close>,
  \<^verbatim>\<open>findHittableNote\<close>, \<^verbatim>\<open>calculateJudgment\<close> and \<^verbatim>\<open>calculateScore\<close> are those above;
  the functions that differ carry the suffix \<open>_v1\<close>.
\<close>

fun spawnLoop_v1 :: "rat \<Rightarrow> rat \<Rightarrow> chartNote list \<Rightarrow> gameEngine \<Rightarrow> gameEngine" where
  "spawnLoop_v1 now gameTime [] s = s"
| "spawnLoop_v1 now gameTime (c # cs) s =
     (if cSpawnTime c \<le> gameTime
      then (let s1 = (if cTopLane c then createNote Top (cHitTime c) Normal 0 now s else s);
                s2 = (if cBottomLane c then createNote Bottom (cHitTime c) Normal 0 now s1 else s1)
            in spawnLoop_v1 now gameTime cs (s2\<lparr>chartIndex := chartIndex s2 + 1\<rparr>))
      else s)"

definition stopGame_v1 :: "gameEngine \<Rightarrow> gameEngine" where
  "stopGame_v1 s =
     (let s1 = clearAllNotes (s\<lparr>isPlaying := False, isPaused := False, flowActive := False\<rparr>)
      in s1\<lparr>gsm := endGame (gsm s1)\<rparr>)"

definition update_v1 :: "rat \<Rightarrow> gameEngine \<Rightarrow> gameEngine" where
  "update_v1 now s =
     (if \<not> isPlaying s \<or> isPaused s then s
      else (let currentTime = now;
                gameTime = fl (currentTime - startTime s);
                s1 = s\<lparr>songProgress := fl (fl (gameTime / songDuration s) * 100)\<rparr>;
                s2 = spawnLoop_v1 now gameTime (drop (chartIndex s1) (demoChart s1)) s1
            in if songProgress s2 \<ge> 100 then stopGame_v1 s2 else s2))"

text \<open>
  The notes built by \<^verbatim>\<open>createNote\<close> have no property \<^verbatim>\<open>position\<close>: reading it gives
  \<^verbatim>\<open>undefined\<close>, \<^verbatim>\<open>Math.abs(undefined - 100)\<close> is \<^verbatim>\<open>NaN\<close>, and \<^verbatim>\<open>NaN < 30\<close> is false.
\<close>

definition position_v1 :: "liveNote \<Rightarrow> rat option" where
  "position_v1 n = None"

definition nearbyNotes_v1 :: "gameEngine \<Rightarrow> lane \<Rightarrow> nat list" where
  "nearbyNotes_v1 s l =
     filter (\<lambda>r. lane (objects s r) = l \<and> \<not> hit (objects s r)
                  \<and> (case position_v1 (objects s r) of None \<Rightarrow> False
                      | Some p \<Rightarrow> \<bar>fl (p - 100)\<bar> < 30)) (liveNotes s)"

definition handleInput_v1 :: "lane \<Rightarrow> gameEngine \<Rightarrow> gameEngine" where
  "handleInput_v1 l s =
     (if \<not> isPlaying s \<or> isPaused s then s
      else case findHittableNote s l of
             Some r \<Rightarrow>
               (let hitNote = objects s r;
                    judgment = calculateJudgment s hitNote;
                    points = calculateScore judgment
                in removeNote r
                     (score points judgment (s\<lparr>objects := (objects s)(r := hitNote\<lparr>hit := True\<rparr>)\<rparr>)))
           | None \<Rightarrow> (if nearbyNotes_v1 s l \<noteq> [] then score 0 Jmiss s else s))"

section \<open>AudioManager: the clock\<close>

record audioManager =
  musicAudio :: bool
  amIsPlaying :: bool
  amStartTime :: rat
  pausedTime :: rat

text \<open>\<^verbatim>\<open>play\<close>, for an audio element whose \<^verbatim>\<open>play()\<close> promise resolves.\<close>

definition amPlay :: "rat \<Rightarrow> audioManager \<Rightarrow> audioManager" where
  "amPlay now a =
     (if musicAudio a then a\<lparr>amStartTime := fl (now - pausedTime a), amIsPlaying := True\<rparr> else a)"

definition amPause :: "rat \<Rightarrow> audioManager \<Rightarrow> audioManager" where
  "amPause now a =
     (if musicAudio a \<and> amIsPlaying a
      then a\<lparr>pausedTime := fl (now - amStartTime a), amIsPlaying := False\<rparr> else a)"

definition getCurrentTime :: "rat \<Rightarrow> audioManager \<Rightarrow> rat" where
  "getCurrentTime now a = (if amIsPlaying a then fl (now - amStartTime a) else pausedTime a)"

section \<open>BMSTimingEngine: grid conversion\<close>

text \<open>
  A lane pattern may be missing from a measure (\<open>None\<close>). The metadata are JSON numbers.
  \<^verbatim>\<open>secondsPerBeat = 60 / bpm\<close> is modelled for a non-zero \<^verbatim>\<open>bpm\<close>, the only case used
  below (a zero \<^verbatim>\<open>bpm\<close> gives \<^verbatim>\<open>Infinity\<close>).
\<close>

record metadata =
  bpm :: rat
  subdivision :: rat
  beatsPerMeasure :: rat
  offset :: rat

record measure =
  topLane :: "string option"
  bottomLane :: "string option"

record bmsNote =
  bHitTime :: rat
  bSpawnTime :: rat
  bLane :: lane
  bType :: noteType
  measureIndex :: nat
  beatPosition :: rat
  subdivisionIndex :: nat
  bTopLane :: bool
  bBottomLane :: bool

text \<open>\<open>charts\<close> maps a difficulty name to its measures.\<close>

record chartData =
  chartMetadata :: metadata
  charts :: "(string \<times> measure list) list"

datatype error =
    DifficultyNotFound string
  | PatternNull string
  | PatternLength string nat rat
  | InvalidCharacter char nat string
  | MissingLaneData nat string
  | LaneLength lane nat nat rat
  | LaneCharacters lane nat
  | NoMeasures string

definition secondsPerBeat :: "metadata \<Rightarrow> rat" where
  "secondsPerBeat md = fl (60 / bpm md)"

definition gridNote :: "metadata \<Rightarrow> nat \<Rightarrow> lane \<Rightarrow> nat \<Rightarrow> bmsNote" where
  "gridNote md m laneName i =
     (let beatPos = fl (fl (rat_of_nat i / subdivision md) * beatsPerMeasure md);
          absoluteBeat = fl (fl (rat_of_nat m * beatsPerMeasure md) + beatPos);
          timeInSeconds = fl (fl (absoluteBeat * secondsPerBeat md) + offset md);
          timeInMs = fl (timeInSeconds * 1000)
      in \<lparr>bHitTime = timeInMs, bSpawnTime = fl (timeInMs - 3000), bLane = laneName, bType = Single,
          measureIndex = m, beatPosition = beatPos, subdivisionIndex = i,
          bTopLane = (laneName = Top), bBottomLane = (laneName = Bottom)\<rparr>)"

text \<open>The \<^verbatim>\<open>for\<close> loop of \<^verbatim>\<open>processLane\<close>: \<open>i\<close> is the index of the first character of
  the rest of the pattern.\<close>

fun laneLoop :: "metadata \<Rightarrow> nat \<Rightarrow> lane \<Rightarrow> nat \<Rightarrow> string \<Rightarrow> bmsNote list \<Rightarrow> bmsNote list" where
  "laneLoop md m laneName i [] acc = acc"
| "laneLoop md m laneName i (c # cs) acc =
     laneLoop md m laneName (i + 1) cs
       (if c = CHR ''1'' then acc @ [gridNote md m laneName i] else acc)"

text \<open>A missing or empty pattern is falsy; a pattern of the wrong length is logged and
  skipped.\<close>

definition processLane :: "metadata \<Rightarrow> string option \<Rightarrow> nat \<Rightarrow> lane \<Rightarrow> bmsNote list \<Rightarrow> bmsNote list" where
  "processLane md lanePattern m laneName acc =
     (case lanePattern of
        None \<Rightarrow> acc
      | Some p \<Rightarrow>
          (if p = [] \<or> rat_of_nat (length p) \<noteq> subdivision md then acc
           else laneLoop md m laneName 0 p acc))"

fun measureLoop :: "metadata \<Rightarrow> nat \<Rightarrow> measure list \<Rightarrow> bmsNote list \<Rightarrow> bmsNote list" where
  "measureLoop md m [] acc = acc"
| "measureLoop md m (x # xs) acc =
     measureLoop md (m + 1) xs
       (processLane md (bottomLane x) m Bottom (processLane md (topLane x) m Top acc))"

text \<open>\<^verbatim>\<open>Array.prototype.sort\<close> is stable, as \<open>sort_key\<close> is.\<close>

definition convertToGameFormat :: "chartData \<Rightarrow> string \<Rightarrow> error + bmsNote list" where
  "convertToGameFormat cd difficulty =
     (case mapGet (charts cd) difficulty of
        None \<Rightarrow> Inl (DifficultyNotFound difficulty)
      | Some ms \<Rightarrow> Inr (sort_key bHitTime (measureLoop (chartMetadata cd) 0 ms [])))"

fun charLoop :: "string \<Rightarrow> nat \<Rightarrow> string \<Rightarrow> error + bool" where
  "charLoop patternName i [] = Inr True"
| "charLoop patternName i (c # cs) =
     (if c \<noteq> CHR ''0'' \<and> c \<noteq> CHR ''1'' then Inl (InvalidCharacter c i patternName)
      else charLoop patternName (i + 1) cs)"

definition validatePattern :: "metadata \<Rightarrow> string option \<Rightarrow> string \<Rightarrow> error + bool" where
  "validatePattern md pat patternName =
     (case pat of
        None \<Rightarrow> Inl (PatternNull patternName)
      | Some p \<Rightarrow>
          (if p = [] then Inl (PatternNull patternName)
           else if rat_of_nat (length p) \<noteq> subdivision md
           then Inl (PatternLength patternName (length p) (subdivision md))
           else charLoop patternName 0 p))"

text \<open>\<^verbatim>\<open>validateChart\<close> catches the errors of \<^verbatim>\<open>validatePattern\<close> and collects them. The
  pattern name it passes is the template \<^verbatim>\<open>`measure ${index} top lane`\<close>, the index
  written in decimal.\<close>

definition issuesOf :: "error + bool \<Rightarrow> error list" where
  "issuesOf r = (case r of Inl e \<Rightarrow> [e] | Inr _ \<Rightarrow> [])"

definition digitChar :: "nat \<Rightarrow> char" where
  "digitChar d = char_of (48 + d)"

function decimal :: "nat \<Rightarrow> string" where
  "decimal n = (if n < 10 then [digitChar n] else decimal (n div 10) @ [digitChar (n mod 10)])"
  by pat_completeness auto
termination
  by (relation "measure id") auto

declare decimal.simps [simp del]

fun issueLoop :: "metadata \<Rightarrow> nat \<Rightarrow> measure list \<Rightarrow> error list" where
  "issueLoop md index [] = []"
| "issueLoop md index (x # xs) =
     issuesOf (validatePattern md (topLane x) (''measure '' @ decimal index @ '' top lane''))
       @ issuesOf (validatePattern md (bottomLane x) (''measure '' @ decimal index @ '' bottom lane''))
       @ issueLoop md (index + 1) xs"

definition validateChart :: "chartData \<Rightarrow> string \<Rightarrow> error + (bool \<times> error list)" where
  "validateChart cd difficulty =
     (case mapGet (charts cd) difficulty of
        None \<Rightarrow> Inl (DifficultyNotFound difficulty)
      | Some ms \<Rightarrow> (let issues = issueLoop (chartMetadata cd) 0 ms in Inr (issues = [], issues)))"

definition createTestChart :: chartData where
  "createTestChart =
     \<lparr>chartMetadata = \<lparr>bpm = 120, subdivision = 16, beatsPerMeasure = 4, offset = 0\<rparr>,
      charts =
        [(''easy'',
          [\<lparr>topLane = Some ''1000100010001000'', bottomLane = Some ''0010001000100010''\<rparr>,
           \<lparr>topLane = Some ''1010000010100000'', bottomLane = Some ''0000101000001010''\<rparr>,
           \<lparr>topLane = Some ''1000100010001000'', bottomLane = Some ''0100010001000100''\<rparr>,
           \<lparr>topLane = Some ''1111000011110000'', bottomLane = Some ''0000111100001111''\<rparr>]),
         (''hard'',
          [\<lparr>topLane = Some ''1010101010101010'', bottomLane = Some ''0101010101010101''\<rparr>,
           \<lparr>topLane = Some ''1100110011001100'', bottomLane = Some ''0011001100110011''\<rparr>,
           \<lparr>topLane = Some ''1111101011111010'', bottomLane = Some ''0101011101010111''\<rparr>,
           \<lparr>topLane = Some ''1000100010001000'', bottomLane = Some ''0010001000100010''\<rparr>])]\<rparr>"

section \<open>ChartLoader: validation at load\<close>

definition validateMeasure :: "metadata \<Rightarrow> string \<Rightarrow> nat \<Rightarrow> measure \<Rightarrow> error + unit" where
  "validateMeasure md difficultyName i x =
     (case (topLane x, bottomLane x) of
        (Some t, Some b) \<Rightarrow>
          (if t = [] \<or> b = [] then Inl (MissingLaneData i difficultyName)
           else if rat_of_nat (length t) \<noteq> subdivision md
           then Inl (LaneLength Top i (length t) (subdivision md))
           else if rat_of_nat (length b) \<noteq> subdivision md
           then Inl (LaneLength Bottom i (length b) (subdivision md))
           else if \<not> list_all (\<lambda>c. c = CHR ''0'' \<or> c = CHR ''1'') t then Inl (LaneCharacters Top i)
           else if \<not> list_all (\<lambda>c. c = CHR ''0'' \<or> c = CHR ''1'') b then Inl (LaneCharacters Bottom i)
           else Inr ())
      | _ \<Rightarrow> Inl (MissingLaneData i difficultyName))"

fun validateMeasures :: "metadata \<Rightarrow> string \<Rightarrow> nat \<Rightarrow> measure list \<Rightarrow> error + unit" where
  "validateMeasures md difficultyName i [] = Inr ()"
| "validateMeasures md difficultyName i (x # xs) =
     (case validateMeasure md difficultyName i x of
        Inl e \<Rightarrow> Inl e
      | Inr _ \<Rightarrow> validateMeasures md difficultyName (i + 1) xs)"

definition validateChartDifficulty :: "measure list \<Rightarrow> string \<Rightarrow> metadata \<Rightarrow> error + unit" where
  "validateChartDifficulty ms difficultyName md =
     (if ms = [] then Inl (NoMeasures difficultyName)
      else validateMeasures md difficultyName 0 ms)"

section \<open>BeatChartGenerator: procedural charts\<close>

datatype patternType = basic | intense | complex | sparse | buildup

fun patterns :: "patternType \<Rightarrow> (bool \<times> bool) list" where
  "patterns basic =
     [(True, False), (False, False), (False, True), (False, False),
      (True, False), (False, True), (False, False), (False, True)]"
| "patterns intense =
     [(True, False), (False, True), (True, False), (False, True),
      (True, True), (False, False), (True, False), (False, True)]"
| "patterns complex =
     [(True, False), (True, False), (False, True), (False, False),
      (False, True), (False, True), (True, True), (False, False)]"
| "patterns sparse =
     [(True, False), (False, False), (False, False), (False, True),
      (False, False), (False, False), (True, False), (False, False)]"
| "patterns buildup =
     [(False, False), (True, False), (False, False), (False, True),
      (False, False), (True, False), (False, True), (True, True)]"

record songSection =
  sName :: string
  sStart :: rat
  sEnd :: rat
  sType :: patternType
  intensity :: rat
  patternChangeEvery :: nat

record genNote =
  gSpawnTime :: rat
  gHitTime :: rat
  gTopLane :: bool
  gBottomLane :: bool
  beat :: nat
  gSection :: string
  gIntensity :: rat

definition mkSection :: "string \<Rightarrow> rat \<Rightarrow> rat \<Rightarrow> patternType \<Rightarrow> rat \<Rightarrow> nat \<Rightarrow> songSection" where
  "mkSection n a b ty i c =
     \<lparr>sName = n, sStart = a, sEnd = b, sType = ty, intensity = i, patternChangeEvery = c\<rparr>"

definition defineSongStructure :: "int \<Rightarrow> songSection list" where
  "defineSongStructure totalBeats =
     (let beatsPerSection = 32
      in [mkSection ''intro'' 0 beatsPerSection sparse (fl (3 / 10)) 16,
          mkSection ''verse1'' beatsPerSection (fl (beatsPerSection * 2)) basic (fl (5 / 10)) 8,
          mkSection ''buildup1'' (fl (beatsPerSection * 2)) (fl (beatsPerSection * fl (25 / 10)))
            buildup (fl (7 / 10)) 4,
          mkSection ''drop1'' (fl (beatsPerSection * fl (25 / 10))) (fl (beatsPerSection * 4))
            intense 1 8,
          mkSection ''breakdown1'' (fl (beatsPerSection * 4)) (fl (beatsPerSection * 5))
            sparse (fl (4 / 10)) 8,
          mkSection ''verse2'' (fl (beatsPerSection * 5)) (fl (beatsPerSection * 6))
            basic (fl (6 / 10)) 8,
          mkSection ''buildup2'' (fl (beatsPerSection * 6)) (fl (beatsPerSection * fl (65 / 10)))
            buildup (fl (8 / 10)) 4,
          mkSection ''drop2'' (fl (beatsPerSection * fl (65 / 10))) (fl (beatsPerSection * 8))
            complex 1 8,
          mkSection ''outro'' (fl (beatsPerSection * 8)) (rat_of_int totalBeats)
            sparse (fl (3 / 10)) 16])"

text \<open>The first section that contains the beat, the last section (\<open>lastSection\<close>) when
  none does.\<close>

fun getCurrentSection :: "nat \<Rightarrow> songSection \<Rightarrow> songSection list \<Rightarrow> songSection" where
  "getCurrentSection b lastSection [] = lastSection"
| "getCurrentSection b lastSection (x # xs) =
     (if rat_of_nat b \<ge> sStart x \<and> rat_of_nat b < sEnd x then x
      else getCurrentSection b lastSection xs)"

text \<open>The \<^verbatim>\<open>while\<close> loop of \<^verbatim>\<open>generateChart\<close>; \<^verbatim>\<open>patternChangeEvery || 8\<close> replaces a zero
  by 8.\<close>

function generateLoop ::
  "rat \<Rightarrow> rat \<Rightarrow> int \<Rightarrow> songSection list \<Rightarrow> nat \<Rightarrow> nat \<Rightarrow> genNote list \<Rightarrow> genNote list" where
  "generateLoop beatInterval travelTimeMs totalBeats songStructure currentBeat patIndex chart =
     (if int currentBeat < totalBeats
      then (let currentSection = getCurrentSection currentBeat (last songStructure) songStructure;
                pat = patterns (sType currentSection);
                currentPattern = pat ! (patIndex mod length pat);
                hitTime = fl (rat_of_nat currentBeat * beatInterval);
                spawnTime = fl (hitTime - travelTimeMs);
                chart1 = (if spawnTime \<ge> 0 \<and> (fst currentPattern \<or> snd currentPattern)
                          then chart @ [\<lparr>gSpawnTime = spawnTime, gHitTime = hitTime,
                                          gTopLane = fst currentPattern, gBottomLane = snd currentPattern,
                                          beat = currentBeat, gSection = sName currentSection,
                                          gIntensity = intensity currentSection\<rparr>]
                          else chart);
                every = (if patternChangeEvery currentSection = 0 then 8
                         else patternChangeEvery currentSection)
            in generateLoop beatInterval travelTimeMs totalBeats songStructure (currentBeat + 1)
                 (if (currentBeat + 1) mod every = 0 then 0 else patIndex + 1) chart1)
      else chart)"
  by pat_completeness auto
termination
  by (relation "measure (\<lambda>(bi, tt, totalBeats, ss, currentBeat, pi, ch). nat (totalBeats - int currentBeat))") auto

declare generateLoop.simps [simp del]

text \<open>
  \<^verbatim>\<open>beatInterval\<close> is a field of the audio manager. With \<^verbatim>\<open>beatInterval = 0\<close> and a
  positive duration \<^verbatim>\<open>totalBeats\<close> is \<^verbatim>\<open>Infinity\<close> and the loop never ends: the result is
  \<open>None\<close>. With a zero or negative duration over zero the quotient is \<^verbatim>\<open>NaN\<close> or
  \<^verbatim>\<open>-Infinity\<close> and the loop body never runs.
\<close>

definition generateChart :: "rat \<Rightarrow> rat \<Rightarrow> rat \<Rightarrow> genNote list option" where
  "generateChart beatInterval durationMs travelTimeMs =
     (if beatInterval = 0
      then (if durationMs > 0 then None else Some [])
      else (let totalBeats = \<lfloor>fl (durationMs / beatInterval)\<rfloor>
            in Some (generateLoop beatInterval travelTimeMs totalBeats
                       (defineSongStructure totalBeats) 0 0 [])))"

section \<open>Example data\<close>

definition m0 :: gameStateManager where
  "m0 = \<lparr>current = 0, high = 0, combo = 0, maxCombo = 0, perfect = 0, great = 0, good = 0,
          miss = 0, holdCount = 0, currentState = MenuScreen\<rparr>"

definition md120 :: metadata where
  "md120 = \<lparr>bpm = 120, subdivision = 16, beatsPerMeasure = 4, offset = 0\<rparr>"

definition singleMeasureChart :: "string \<Rightarrow> string option \<Rightarrow> string option \<Rightarrow> chartData" where
  "singleMeasureChart difficulty t b =
     \<lparr>chartMetadata = md120, charts = [(difficulty, [\<lparr>topLane = t, bottomLane = b\<rparr>])]\<rparr>"

definition laneHitTimes :: "lane \<Rightarrow> bmsNote list \<Rightarrow> rat list" where
  "laneHitTimes l ns = map bHitTime (filter (\<lambda>n. bLane n = l) ns)"

definition engine0 :: gameEngine where
  "engine0 = constructor m0 100 (\<lambda>_. True)"

definition shortTopChart :: chartData where
  "shortTopChart = singleMeasureChart ''easy'' (Some ''101'') (Some ''0010001000100010'')"

definition sHold :: gameEngine where
  "sHold = createNote Top 3000 Hold 1000 0 (startGame 0 engine0)"

definition sHeld :: gameEngine where
  "sHeld = handleInput Top press 100 sHold"

text \<open>The hold note of \<open>sHold\<close> after 36 runs of its slide interval: 95 units past the
  hit zone.\<close>

definition sLate :: gameEngine where
  "sLate = run (replicate 36 (ESlide 0)) sHold"


definition sTwoHolds :: gameEngine where
  "sTwoHolds = createNote Top 3010 Hold 5000 0 (createNote Top 3000 Hold 5000 0 (startGame 0 engine0))"

definition sStacked :: gameEngine where
  "sStacked = run [EInput Top press 10, EInput Top press 20, EInput Top release 30] sTwoHolds"

text \<open>The hold note of \<open>sHold\<close> is pressed, and the session is started again while the
  note is held.\<close>

definition sRestarted :: gameEngine where
  "sRestarted = run [EInput Top press 100, EStart 200] sHold"

section \<open>Invariants of the engine state\<close>

text \<open>Every live note that was not hit still has its element in the document.\<close>

definition unhitAttached :: "gameEngine \<Rightarrow> bool" where
  "unhitAttached s \<longleftrightarrow> (\<forall>r \<in> set (liveNotes s). \<not> hit (objects s r) \<longrightarrow> attached (objects s r))"

text \<open>The map has one entry per lane at most, and every entry is a note of its lane that
  is holding.\<close>

definition entriesHolding :: "gameEngine \<Rightarrow> bool" where
  "entriesHolding s \<longleftrightarrow>
     distinct (map fst (activeHoldNotes s))
     \<and> (\<forall>(l, r) \<in> set (activeHoldNotes s). lane (objects s r) = l \<and> isHolding (objects s r))"

text \<open>Every entry is a live note.\<close>

definition entriesLive :: "gameEngine \<Rightarrow> bool" where
  "entriesLive s \<longleftrightarrow> (\<forall>(l, r) \<in> set (activeHoldNotes s). r \<in> set (liveNotes s))"

text \<open>Every live note that is holding is the entry of its lane.\<close>

definition holdingHasEntry :: "gameEngine \<Rightarrow> bool" where
  "holdingHasEntry s \<longleftrightarrow>
     (\<forall>r \<in> set (liveNotes s). isHolding (objects s r)
         \<longrightarrow> mapGet (activeHoldNotes s) (lane (objects s r)) = Some r)"

text \<open>References point to created notes; the notes in the map and the notes awaiting
  removal were hit.\<close>

definition wellFormed :: "gameEngine \<Rightarrow> bool" where
  "wellFormed s \<longleftrightarrow>
     (\<forall>r \<in> set (liveNotes s). r < nextRef s)
     \<and> (\<forall>(l, r) \<in> set (activeHoldNotes s). r < nextRef s \<and> hit (objects s r))
     \<and> (\<forall>r \<in> set (removeTimers s). r < nextRef s \<and> hit (objects s r))
     \<and> unhitAttached s"

text \<open>The event does not start a hold in a lane that already has an entry.\<close>

definition noStackedHold :: "gameEngine \<Rightarrow> event \<Rightarrow> bool" where
  "noStackedHold s e =
     (case e of
        EInput l a now \<Rightarrow>
          (a = press \<and> isPlaying s \<and> \<not> isPaused s \<longrightarrow>
             (case findHittableNote s l of
                None \<Rightarrow> True
              | Some r \<Rightarrow> ntype (objects s r) = Hold \<longrightarrow> mapGet (activeHoldNotes s) l = None))
      | _ \<Rightarrow> True)"

fun noStackedHolds :: "event list \<Rightarrow> gameEngine \<Rightarrow> bool" where
  "noStackedHolds [] s = True"
| "noStackedHolds (e # es) s = (noStackedHold s e \<and> noStackedHolds es (step e s))"

text \<open>The event does not start a session while the map has an entry.\<close>

definition noRestart :: "gameEngine \<Rightarrow> event \<Rightarrow> bool" where
  "noRestart s e = (case e of EStart now \<Rightarrow> activeHoldNotes s = [] | _ \<Rightarrow> True)"

fun noRestarts :: "event list \<Rightarrow> gameEngine \<Rightarrow> bool" where
  "noRestarts [] s = True"
| "noRestarts (e # es) s = (noRestart s e \<and> noRestarts es (step e s))"

text \<open>From \<open>s\<close> to \<open>s'\<close> the map gains no entry and no live note is dropped.\<close>

definition noNewEntry :: "gameEngine \<Rightarrow> gameEngine \<Rightarrow> bool" where
  "noNewEntry s s' \<longleftrightarrow>
     set (activeHoldNotes s') \<subseteq> set (activeHoldNotes s) \<and> set (liveNotes s) \<subseteq> set (liveNotes s')"

definition holdMapInv :: "gameEngine \<Rightarrow> bool" where
  "holdMapInv s \<longleftrightarrow> wellFormed s \<and> entriesHolding s"

definition fullInv :: "gameEngine \<Rightarrow> bool" where
  "fullInv s \<longleftrightarrow> holdMapInv s \<and> holdingHasEntry s"

definition attachedInv_v1 :: "gameEngine \<Rightarrow> bool" where
  "attachedInv_v1 s \<longleftrightarrow> (\<forall>r \<in> set (liveNotes s). r < nextRef s) \<and> unhitAttached s"

text \<open>
  The state of a hold of 1000 ms that started at \<open>t0\<close> in the state \<open>s0\<close>, after \<open>j\<close>
  progressive awards and before its completion: the awards add up to the note's
  \<^verbatim>\<open>holdScore\<close>.
\<close>

definition holdProgress :: "gameEngine \<Rightarrow> lane \<Rightarrow> nat \<Rightarrow> rat \<Rightarrow> nat \<Rightarrow> gameEngine \<Rightarrow> bool" where
  "holdProgress s0 l r t0 j s \<longleftrightarrow>
     activeHoldNotes s = [(l, r)] \<and> lane (objects s r) = l \<and> isHolding (objects s r)
     \<and> holdStartTime (objects s r) = Some t0 \<and> duration (objects s r) = 1000
     \<and> 10 * int j \<le> holdScore (objects s r) \<and> holdScore (objects s r) \<le> 100
     \<and> (holdScore (objects s r) = 0 \<or> 1 \<le> j)
     \<and> current (gsm s) = current (gsm s0) + holdScore (objects s r)
     \<and> holdCount (gsm s) = holdCount (gsm s0) + j
     \<and> combo (gsm s) = combo (gsm s0) + j
     \<and> perfect (gsm s) = perfect (gsm s0) \<and> great (gsm s) = great (gsm s0)
     \<and> good (gsm s) = good (gsm s0) \<and> miss (gsm s) = miss (gsm s0)"

section \<open>Rounding\<close>

lemma pow2_powi: "pow2 e = 2 powi e"
  by (simp add: pow2_def power_int_def field_simps)

lemma pow2_pos [simp]: "0 < pow2 e"
  by (simp add: pow2_powi)

lemma pow2_add: "pow2 (a + b) = pow2 a * pow2 b"
  by (simp add: pow2_powi power_int_add)

lemma pow2_mono: "a \<le> b \<Longrightarrow> pow2 a \<le> pow2 b"
  by (simp add: pow2_powi power_int_increasing)

lemma pow2_lessD: "pow2 a < pow2 b \<Longrightarrow> a < b"
  using pow2_mono [of b a] by (cases "a < b") simp_all

lemma pow2_nat: "0 \<le> e \<Longrightarrow> pow2 e = rat_of_int (2 ^ nat e)"
  by (simp add: pow2_def)

lemma roundEven_le: "x \<le> rat_of_int n \<Longrightarrow> roundEven x \<le> n"
proof -
  assume x: "x \<le> rat_of_int n"
  hence f: "\<lfloor>x\<rfloor> \<le> n" by (simp add: floor_le_iff) 
  show ?thesis
  proof (cases "\<lfloor>x\<rfloor> = n")
    case True
    hence "rat_of_int n \<le> x" by (metis of_int_floor_le)
    with x have "x = rat_of_int n" by simp
    thus ?thesis by (simp add: roundEven_def)
  next
    case False
    with f have "\<lfloor>x\<rfloor> + 1 \<le> n" by simp
    thus ?thesis using f by (simp add: roundEven_def Let_def)
  qed
qed

lemma roundEven_ge: "rat_of_int n \<le> x \<Longrightarrow> n \<le> roundEven x"
proof -
  assume "rat_of_int n \<le> x"
  hence "n \<le> \<lfloor>x\<rfloor>" by (simp add: le_floor_iff)
  thus ?thesis by (simp add: roundEven_def Let_def)
qed

lemma roundEven_of_int [simp]: "roundEven (rat_of_int n) = n"
  by (simp add: roundEven_def)

lemma exponent_le: 
  assumes "x \<noteq> 0" shows "pow2 (exponent x) \<le> \<bar>x\<bar>"
proof -
  obtain a b where q: "quotient_of \<bar>x\<bar> = (a, b)" by (cases "quotient_of \<bar>x\<bar>")
  have b: "0 < b" using q by (rule quotient_of_denom_pos)
  have x: "\<bar>x\<bar> = rat_of_int a / rat_of_int b" using q by (rule quotient_of_div)
  have a: "0 < a"
  proof -
    have "0 < \<bar>x\<bar>" using assms by simp
    hence "0 < rat_of_int a / rat_of_int b" using x by simp
    thus ?thesis using b by (simp add: zero_less_divide_iff)
  qed
  let ?k = "bitlen a - bitlen b"
  have la: "2 ^ nat (bitlen a - 1) \<le> a" using bitlen_bounds [OF a] by simp
  have lb: "b < 2 ^ nat (bitlen b)" using bitlen_bounds [OF b] by simp
  have pa: "0 < bitlen a" using bitlen_bounds [OF a] a by (cases "0 < bitlen a") simp_all
  have pb: "0 < bitlen b" using bitlen_bounds [OF b] b by (cases "0 < bitlen b") simp_all
  have "pow2 (?k - 1) \<le> \<bar>x\<bar>"
  proof -
    have "pow2 (?k - 1) * pow2 (bitlen b) = pow2 (bitlen a - 1)"
      by (simp add: pow2_add [symmetric])
    moreover have "pow2 (bitlen a - 1) \<le> rat_of_int a"
      using la pa by (simp add: pow2_nat of_int_le_iff [symmetric] del: of_int_le_iff)
    moreover have "rat_of_int b \<le> pow2 (bitlen b)"
      using lb pb by (simp add: pow2_nat of_int_le_iff [symmetric] del: of_int_le_iff)
    ultimately have "pow2 (?k - 1) * rat_of_int b \<le> rat_of_int a"
      by (smt (verit, best) mult_left_mono pow2_pos less_imp_le order_trans)
    thus ?thesis using b x by (simp add: pos_le_divide_eq)
  qed
  thus ?thesis using q by (simp add: exponent_def Let_def)
qed

lemma exponent_less:
  assumes "x \<noteq> 0" "\<bar>x\<bar> < pow2 n" shows "exponent x < n"
proof -
  have "pow2 (exponent x) < pow2 n" using exponent_le [OF assms(1)] assms(2) by simp
  thus ?thesis by (rule pow2_lessD)
qed

lemma fl_0 [simp]: "fl 0 = 0"
  by (simp add: fl_def)

lemma fl_exact:
  assumes "\<bar>n\<bar> < 2 ^ 53" shows "fl (rat_of_int n * pow2 k) = rat_of_int n * pow2 k"
proof (cases "n = 0")
  case True thus ?thesis by simp
next
  case False
  let ?x = "rat_of_int n * pow2 k"
  have nz: "?x \<noteq> 0" using False by (simp add: less_imp_neq [OF pow2_pos, symmetric])
  have "\<bar>?x\<bar> < pow2 53 * pow2 k"
  proof -
    have "rat_of_int \<bar>n\<bar> < rat_of_int (2 ^ 53)" using assms by (simp only: of_int_less_iff)
    hence "\<bar>rat_of_int n\<bar> < pow2 53" by (simp add: pow2_def)
    hence "\<bar>rat_of_int n\<bar> * pow2 k < pow2 53 * pow2 k"
      by (rule mult_strict_right_mono) simp
    thus ?thesis by (simp add: abs_mult abs_of_pos)
  qed
  hence ex: "exponent ?x < 53 + k" using nz by (intro exponent_less) (simp_all add: pow2_add)
  define g where "g = exponent ?x - 52"
  define d where "d = k - g"
  have e: "0 \<le> d" using ex by (simp add: d_def g_def)
  have dk: "pow2 k = pow2 d * pow2 g"
    by (simp add: d_def pow2_add [symmetric])
  have gz: "pow2 g \<noteq> 0" by (simp add: less_imp_neq [OF pow2_pos, symmetric])
  have "rat_of_int n * (pow2 d * pow2 g) / pow2 g = rat_of_int n * pow2 d"
    using gz by simp
  also have "\<dots> = rat_of_int (n * 2 ^ nat d)" using e by (simp add: pow2_nat)
  finally have "rat_of_int n * (pow2 d * pow2 g) / pow2 g = rat_of_int (n * 2 ^ nat d)" .
  hence "roundEven (rat_of_int n * (pow2 d * pow2 g) / pow2 g) = n * 2 ^ nat d"
    by (simp only: roundEven_of_int)
  hence "roundEven (?x / pow2 g) = n * 2 ^ nat d" by (simp only: dk)
  hence "fl ?x = rat_of_int (n * 2 ^ nat d) * pow2 g"
    using nz by (simp add: fl_def Let_def g_def)
  also have "\<dots> = rat_of_int n * (pow2 d * pow2 g)"
    using e by (simp add: pow2_nat)
  finally show ?thesis by (simp only: dk)
qed

lemma fl_of_int: "\<bar>n\<bar> < 2 ^ 53 \<Longrightarrow> fl (rat_of_int n) = rat_of_int n"
  using fl_exact [of n 0] by (simp add: pow2_def)

lemma fl_nonpos: "x \<le> 0 \<Longrightarrow> fl x \<le> 0"
proof -
  assume x: "x \<le> 0"
  have "x / pow2 (exponent x - 52) \<le> rat_of_int 0" using x by (simp add: divide_le_0_iff less_imp_le)
  hence "roundEven (x / pow2 (exponent x - 52)) \<le> 0" by (rule roundEven_le)
  thus ?thesis by (simp add: fl_def Let_def mult_le_0_iff less_imp_le)
qed

lemma fl_le_int:
  assumes "x \<le> rat_of_int n" "0 \<le> n" "n < 2 ^ 53" shows "fl x \<le> rat_of_int n"
proof (cases "x \<le> 0")
  case True
  hence "fl x \<le> 0" by (rule fl_nonpos)
  thus ?thesis using assms(2) by (smt (verit) of_int_nonneg order_trans)
next
  case False
  hence pos: "0 < x" by simp
  let ?e = "exponent x - 52"
  have "\<bar>x\<bar> < pow2 53"
  proof -
    have "rat_of_int n < rat_of_int (2 ^ 53)" using assms(3) by (simp only: of_int_less_iff)
    thus ?thesis using assms(1) pos by (simp add: pow2_def)
  qed
  hence "exponent x < 53" using pos by (intro exponent_less) simp_all
  hence e: "0 \<le> - ?e" by simp
  have n: "rat_of_int (n * 2 ^ nat (- ?e)) * pow2 ?e = rat_of_int n"
  proof -
    have one: "pow2 (- ?e) * pow2 ?e = 1" by (simp add: pow2_add [symmetric] pow2_def)
    have "rat_of_int (n * 2 ^ nat (- ?e)) = rat_of_int n * pow2 (- ?e)"
      using e by (simp add: pow2_nat)
    hence "rat_of_int (n * 2 ^ nat (- ?e)) * pow2 ?e = rat_of_int n * (pow2 (- ?e) * pow2 ?e)"
      by (simp only: mult.assoc)
    thus ?thesis by (simp only: one mult_1_right)
  qed
  have "x / pow2 ?e \<le> rat_of_int (n * 2 ^ nat (- ?e))"
    using assms(1) by (simp only: pos_divide_le_eq [OF pow2_pos] n)
  hence "roundEven (x / pow2 ?e) \<le> n * 2 ^ nat (- ?e)" by (rule roundEven_le)
  hence "rat_of_int (roundEven (x / pow2 ?e)) \<le> rat_of_int (n * 2 ^ nat (- ?e))"
    by (simp only: of_int_le_iff)
  hence "rat_of_int (roundEven (x / pow2 ?e)) * pow2 ?e \<le> rat_of_int (n * 2 ^ nat (- ?e)) * pow2 ?e"
    by (simp add: mult_right_mono less_imp_le)
  hence "rat_of_int (roundEven (x / pow2 ?e)) * pow2 ?e \<le> rat_of_int n"
    by (simp only: n)
  thus ?thesis using pos by (simp add: fl_def Let_def)
qed

lemma fl_numeral [simp]: "numeral w < (9007199254740992::int) \<Longrightarrow> fl (numeral w) = numeral w"
  using fl_of_int [of "numeral w"] by simp

lemma fl_neg_numeral [simp]:
  "numeral w < (9007199254740992::int) \<Longrightarrow> fl (- numeral w) = - numeral w"
  using fl_of_int [of "- numeral w"] by simp

lemma fl_1 [simp]: "fl 1 = 1"
  using fl_of_int [of 1] by simp

lemma fl_of_nat: "n < 2 ^ 53 \<Longrightarrow> fl (rat_of_nat n) = rat_of_nat n"
  using fl_of_int [of "int n"] by simp

lemma fl_dyadic:
  assumes "\<bar>n\<bar> < 2 ^ 53" shows "fl (rat_of_int n / 2 ^ k) = rat_of_int n / 2 ^ k"
proof -
  have "pow2 (- int k) = 1 / 2 ^ k" by (simp add: pow2_def)
  thus ?thesis using fl_exact [OF assms, of "- int k"] by simp
qed

lemma fl_half [simp]: "fl (1 / 2) = 1 / 2"
  using fl_dyadic [of 1 1] by simp

lemma fl_1_div [simp]: "fl (1 / 4) = 1 / 4" "fl (1 / 8) = 1 / 8" "fl (1 / 16) = 1 / 16"
  using fl_dyadic [of 1 2] fl_dyadic [of 1 3] fl_dyadic [of 1 4] by simp_all

lemma fl_numeral_div [simp]:
  assumes "numeral w < (9007199254740992::int)"
  shows "fl (numeral w / 2) = numeral w / 2" "fl (numeral w / 4) = numeral w / 4"
    "fl (numeral w / 8) = numeral w / 8" "fl (numeral w / 16) = numeral w / 16"
  using assms fl_dyadic [of "numeral w" 1] fl_dyadic [of "numeral w" 2]
    fl_dyadic [of "numeral w" 3] fl_dyadic [of "numeral w" 4]
  by simp_all

lemma fl_le_10: "x \<le> 10 \<Longrightarrow> fl x \<le> 10"
  using fl_le_int [of x 10] by simp

text \<open>The doubles of the constants that the examples below meet.\<close>

lemma fl_hitZone_100 [simp]: "fl (100 * fl (3 / 20)) = 15"
  by code_simp

lemma fl_progress_400 [simp]: "\<not> 100 \<le> fl (fl (1 / 150) * 100)"
  by code_simp

lemma fl_progress_1000 [simp]: "\<not> 100 \<le> fl (fl (1 / 60) * 100)"
  by code_simp

lemma fl_progress_1100 [simp]: "\<not> 100 \<le> fl (fl (11 / 600) * 100)"
  by code_simp

lemma fl_progress_6000 [simp]: "fl (fl (1 / 10) * 100) = 10"
  by code_simp

section \<open>Grade\<close>

text \<open>
  C8. Four perfect, one great and one miss judgment have the accuracy
  \<open>(4 + 1 * 0.8 + 0 * 0.5) / 6 = 0.8\<close>, which the threshold \<open>accuracy \<ge> 0.80\<close> maps to B.
  \<^verbatim>\<open>calculateGrade\<close> computes in doubles: the sum \<^verbatim>\<open>4 + 1 * 0.8\<close> divided by 6 is
  rounded to 0.7999999999999999, below the double \<^verbatim>\<open>0.80\<close>, and the grade is C. In the
  same way six perfect, two great and one good judgment have the accuracy 0.9 and the
  grade A, and \<^verbatim>\<open>calculateGrade\<close> returns B.
\<close>

theorem grade_misses_exact_threshold:
  "spec_accuracy 4 1 0 6 = 8 / 10 \<and> spec_grade 4 1 0 1 = GradeB
   \<and> calculateGrade (m0\<lparr>perfect := 4, great := 1, good := 0, miss := 1\<rparr>) = GradeC
   \<and> spec_accuracy 6 2 1 9 = 9 / 10 \<and> spec_grade 6 2 1 0 = GradeA
   \<and> calculateGrade (m0\<lparr>perfect := 6, great := 2, good := 1, miss := 0\<rparr>) = GradeB"
  by code_simp

text \<open>With no judged note the grade is D, as the specification says.\<close>

lemma grade_zero_judged:
  "perfect m = 0 \<Longrightarrow> great m = 0 \<Longrightarrow> good m = 0 \<Longrightarrow> miss m = 0 \<Longrightarrow> calculateGrade m = GradeD"
  by (simp add: calculateGrade_def count_def)

text \<open>Away from the thresholds the rounding does not show: eight perfect, one great and
  one good judgment have the accuracy 0.93 and the grade A in both.\<close>

lemma grade_between_thresholds:
  "calculateGrade (m0\<lparr>perfect := 8, great := 1, good := 1, miss := 0\<rparr>) = GradeA
   \<and> spec_grade 8 1 1 0 = GradeA"
  by code_simp

section \<open>Grid conversion\<close>

lemma laneLoop_append: "laneLoop md m l i cs acc = acc @ laneLoop md m l i cs []"
proof (induction cs arbitrary: i acc)
  case Nil
  show ?case by simp
next
  case (Cons c cs)
  show ?case
    using Cons.IH [of "i + 1" "acc @ [gridNote md m l i]"] Cons.IH [of "i + 1" "[gridNote md m l i]"]
      Cons.IH [of "i + 1" acc]
    by simp
qed

lemma laneLoop_lane: "n \<in> set (laneLoop md m l i cs []) \<Longrightarrow> bLane n = l"
proof (induction cs arbitrary: i)
  case Nil
  then show ?case by simp
next
  case (Cons c cs)
  then show ?case
    using laneLoop_append [of md m l "i + 1" cs "[gridNote md m l i]"]
    by (auto simp: gridNote_def Let_def split: if_splits)
qed

lemma processLane_append: "processLane md p m l acc = acc @ processLane md p m l []"
  using laneLoop_append [of md m l 0 _ acc]
  by (auto simp: processLane_def split: option.splits)

lemma processLane_lane: "n \<in> set (processLane md p m l []) \<Longrightarrow> bLane n = l"
  by (auto simp: processLane_def dest: laneLoop_lane split: option.splits if_splits)

lemma filter_other_lane: "l \<noteq> l' \<Longrightarrow> filter (\<lambda>n. bLane n = l') (processLane md p m l []) = []"
  by (auto simp: filter_empty_conv dest: processLane_lane)

lemma top_pattern_notes:
  "map bHitTime (processLane md120 (Some ''1000100010001000'') 0 Top []) = [0, 500, 1000, 1500]"
  by (simp add: processLane_def md120_def gridNote_def secondsPerBeat_def)

text \<open>
  C7. Converting the chart with bpm 120, subdivision 16, 4 beats per measure, offset 0 and
  one measure whose top lane is \<open>1000100010001000\<close> gives exactly four top-lane notes, at
  the hit times 0, 500, 1000 and 1500 ms, whatever the bottom lane of the measure is.
\<close>

theorem test_chart_top_lane:
  "map_sum id (laneHitTimes Top)
     (convertToGameFormat (singleMeasureChart d (Some ''1000100010001000'') b) d)
   = Inr [0, 500, 1000, 1500]"
proof -
  let ?tops = "processLane md120 (Some ''1000100010001000'') 0 Top []"
  let ?bots = "processLane md120 b 0 Bottom []"
  have conv: "convertToGameFormat (singleMeasureChart d (Some ''1000100010001000'') b) d
              = Inr (sort_key bHitTime (?tops @ ?bots))"
    using processLane_append [of md120 b 0 Bottom ?tops]
    by (simp add: convertToGameFormat_def singleMeasureChart_def)
  have f1: "filter (\<lambda>n. bLane n = Top) (?tops @ ?bots) = ?tops"
    using filter_other_lane [of Bottom Top md120 b 0]
    by (auto simp: filter_id_conv dest: processLane_lane)
  have "map bHitTime (filter (\<lambda>n. bLane n = Top) (sort_key bHitTime (?tops @ ?bots)))
        = map bHitTime (sort_key bHitTime ?tops)"
    by (simp only: filter_sort f1)
  also have "\<dots> = map bHitTime ?tops"
  proof -
    have "sorted (map bHitTime ?tops)"
      by (simp only: top_pattern_notes) simp
    then show ?thesis
      by (simp only: sort_key_id_if_sorted)
  qed
  also have "\<dots> = [0, 500, 1000, 1500]"
    by (rule top_pattern_notes)
  finally show ?thesis
    by (simp only: conv laneHitTimes_def map_sum.simps)
qed

lemma laneLoop_spawn:
  "n \<in> set (laneLoop md m l i cs []) \<Longrightarrow> bSpawnTime n = fl (bHitTime n - 3000)"
proof (induction cs arbitrary: i)
  case Nil
  then show ?case by simp
next
  case (Cons c cs)
  then show ?case
    using laneLoop_append [of md m l "i + 1" cs "[gridNote md m l i]"]
    by (auto simp: gridNote_def Let_def split: if_splits)
qed

text \<open>Every note of the grid conversion has \<open>spawnTime = hitTime - 3000\<close>, as a double.\<close>

lemma processLane_spawn:
  "n \<in> set (processLane md p m l []) \<Longrightarrow> bSpawnTime n = fl (bHitTime n - 3000)"
  by (auto simp: processLane_def dest: laneLoop_spawn split: option.splits if_splits)

text \<open>
  C2. Every scheduled note has \<open>spawnTime = hitTime - travelTime\<close> and \<open>spawnTime \<ge> 0\<close>.
  The grid conversion schedules notes with a negative spawn time: the first four notes of
  the converted test chart are due at 0, 250, 500 and 750 ms and have the spawn times
  -3000, -2750, -2500 and -2250 ms.
\<close>

theorem grid_notes_negative_spawn:
  "map_sum id (\<lambda>ns. map (\<lambda>n. (bLane n, bHitTime n, bSpawnTime n)) (take 4 ns))
     (convertToGameFormat createTestChart ''easy'')
   = Inr [(Top, 0, - 3000), (Bottom, 250, - 2750), (Top, 500, - 2500), (Bottom, 750, - 2250)]"
  by (simp add: createTestChart_def convertToGameFormat_def processLane_def
      gridNote_def secondsPerBeat_def)

text \<open>The procedural generator does drop them: every note it returns satisfies both parts.\<close>

lemma generateLoop_inv:
  "\<forall>n \<in> set chart. gSpawnTime n = fl (gHitTime n - tt) \<and> 0 \<le> gSpawnTime n \<Longrightarrow>
   \<forall>n \<in> set (generateLoop bi tt tb ss cb k chart).
      gSpawnTime n = fl (gHitTime n - tt) \<and> 0 \<le> gSpawnTime n"
proof (induction bi tt tb ss cb k chart rule: generateLoop.induct)
  case (1 bi tt tb ss cb k chart)
  show ?case
  proof (cases "int cb < tb")
    case True
    show ?thesis
      apply (subst generateLoop.simps)
      apply (simp only: True if_True Let_def)
      apply (rule "1.IH" [simplified Let_def, OF True refl refl refl refl refl refl refl])
      using "1.prems" apply auto
      done
  next
    case False
    then show ?thesis
      using "1.prems" by (subst generateLoop.simps) (simp only: if_False)
  qed
qed

lemma generateChart_spawn:
  "generateChart bi d tt = Some ch \<Longrightarrow> n \<in> set ch
   \<Longrightarrow> gSpawnTime n = fl (gHitTime n - tt) \<and> 0 \<le> gSpawnTime n"
  using generateLoop_inv [of "[]" tt bi "\<lfloor>fl (d / bi)\<rfloor>" "defineSongStructure \<lfloor>fl (d / bi)\<rfloor>" 0 0]
  by (auto simp: generateChart_def Let_def split: if_splits)

section \<open>Pattern validation\<close>

text \<open>
  C6, as the claim states it: a pattern whose length differs from the subdivision makes the
  conversion raise an error. It does not: the chart below has a top-lane pattern of length
  3 for the subdivision 16, and the conversion returns the four bottom-lane notes.
\<close>

theorem wrong_length_not_raised:
  "rat_of_nat (length ''101'') \<noteq> subdivision (chartMetadata shortTopChart)
   \<and> map_sum id (map bHitTime) (convertToGameFormat shortTopChart ''easy'')
       = Inr [250, 750, 1250, 1750]"
  by (simp add: shortTopChart_def singleMeasureChart_def convertToGameFormat_def processLane_def
      md120_def gridNote_def secondsPerBeat_def)

lemma validateMeasure_wrong_length:
  "rat_of_nat (length p) \<noteq> subdivision md \<Longrightarrow> topLane x = Some p \<or> bottomLane x = Some p
   \<Longrightarrow> isl (validateMeasure md name i x)"
  by (auto simp: validateMeasure_def split: option.splits)

lemma validateMeasures_wrong_length:
  "rat_of_nat (length p) \<noteq> subdivision md \<Longrightarrow> x \<in> set ms
   \<Longrightarrow> topLane x = Some p \<or> bottomLane x = Some p \<Longrightarrow> isl (validateMeasures md name i ms)"
proof (induction ms arbitrary: i)
  case Nil
  then show ?case by simp
next
  case (Cons y ms)
  show ?case
  proof (cases "validateMeasure md name i y")
    case (Inl e)
    then show ?thesis by simp
  next
    case (Inr u)
    then have "x \<noteq> y"
      using validateMeasure_wrong_length [OF Cons.prems(1) Cons.prems(3), of name i] by auto
    then show ?thesis
      using Cons Inr by simp
  qed
qed

text \<open>
  C6, amended. For every lane pattern whose length differs from the subdivision,
  \<^verbatim>\<open>validatePattern\<close> raises an error, and so does the loader's
  \<^verbatim>\<open>validateChartDifficulty\<close> for every chart with a measure that holds the pattern; the
  conversion raises nothing for it: \<^verbatim>\<open>processLane\<close> schedules no note from the pattern and
  leaves the notes scheduled so far as they are, and \<^verbatim>\<open>convertToGameFormat\<close> returns a
  schedule for every difficulty the chart has.
\<close>

theorem wrong_length_pattern:
  assumes "rat_of_nat (length p) \<noteq> subdivision md"
  shows "isl (validatePattern md (Some p) name)
       \<and> processLane md (Some p) m l acc = acc
       \<and> (x \<in> set ms \<and> (topLane x = Some p \<or> bottomLane x = Some p)
            \<longrightarrow> isl (validateChartDifficulty ms d md))
       \<and> (mapGet (charts cd) d \<noteq> None \<longrightarrow> \<not> isl (convertToGameFormat cd d))"
  using assms validateMeasures_wrong_length [OF assms, of x ms d 0]
  by (auto simp: validatePattern_def processLane_def validateChartDifficulty_def
      convertToGameFormat_def)

theorem wrong_length_pattern_witness:
  "rat_of_nat (length ''101'') \<noteq> subdivision md120
   \<and> validatePattern md120 (Some ''101'') ''top'' = Inl (PatternLength ''top'' 3 16)
   \<and> processLane md120 (Some ''101'') 0 Top [] = []
   \<and> isl (validateChartDifficulty
            [\<lparr>topLane = Some ''101'', bottomLane = Some ''0010001000100010''\<rparr>] ''easy'' md120)
   \<and> \<not> isl (convertToGameFormat shortTopChart ''easy'')"
proof -
  have h: "rat_of_nat (length ''101'') \<noteq> subdivision md120"
    by (simp add: md120_def)
  show ?thesis
    using h wrong_length_pattern [OF h, where name = "''top''" and m = 0 and l = Top and acc = "[]"
        and x = "\<lparr>topLane = Some ''101'', bottomLane = Some ''0010001000100010''\<rparr>"
        and ms = "[\<lparr>topLane = Some ''101'', bottomLane = Some ''0010001000100010''\<rparr>]"
        and d = "''easy''" and cd = shortTopChart]
    by (simp add: validatePattern_def md120_def shortTopChart_def singleMeasureChart_def)
qed

section \<open>The session clock\<close>

lemma pause_resume_identity: "pauseGame (pauseGame s) = s"
  by (simp add: pauseGame_def)

lemma createDemoChart_None: "createDemoChart None = []"
  by (simp add: createDemoChart_def demoChartEntry_def)

text \<open>The audio manager's clock does leave the paused time out: started at 0 ms, paused
  at 1000 ms and resumed at 4000 ms, it reads 3000 ms at 6000 ms.\<close>

lemma audio_clock_excludes_pause:
  "musicAudio a \<Longrightarrow> \<not> amIsPlaying a \<Longrightarrow> pausedTime a = 0 \<Longrightarrow>
   getCurrentTime 6000 (amPlay 4000 (amPause 1000 (amPlay 0 a))) = 3000"
  by (simp add: getCurrentTime_def amPlay_def amPause_def)

text \<open>
  C1. A session starts at 0 ms and runs a frame at 1000 ms; it is paused, a frame at
  3000 ms finds it paused, it is resumed and runs a frame at 6000 ms. After any pause
  between the frames at 1000 and 6000 ms the game time of the last frame is 6000 ms (the
  song progress is 10 percent of 60 s), the same as in the session that was never paused:
  the paused time is not subtracted. Both engines agree.
\<close>

theorem pause_keeps_clock_running:
  "songProgress (update 6000 (pauseGame (update 3000 (pauseGame (update 1000 (startGame 0 engine0)))))) = 10
   \<and> songProgress (update 6000 (update 1000 (startGame 0 engine0))) = 10
   \<and> songProgress (update_v1 6000 (pauseGame (update_v1 3000 (pauseGame (update_v1 1000 (startGame 0 engine0)))))) = 10
   \<and> songProgress (update_v1 6000 (update_v1 1000 (startGame 0 engine0))) = 10"
  by (simp add: update_def update_v1_def pauseGame_def startGame_def engine0_def constructor_def
      createDemoChart_None spawnNotes_def updateHoldNotes_def Let_def)

theorem pause_keeps_clock_running_witness:
  "isPlaying (update 1000 (startGame 0 engine0))
   \<and> isPaused (pauseGame (update 1000 (startGame 0 engine0)))
   \<and> update 3000 (pauseGame (update 1000 (startGame 0 engine0)))
       = pauseGame (update 1000 (startGame 0 engine0))
   \<and> songProgress (update 6000 (pauseGame (update 3000 (pauseGame (update 1000 (startGame 0 engine0))))))
       = songProgress (update 6000 (update 1000 (startGame 0 engine0)))"
proof -
  have "isPlaying (update 1000 (startGame 0 engine0))
        \<and> isPaused (pauseGame (update 1000 (startGame 0 engine0)))"
    by (simp add: update_def pauseGame_def startGame_def engine0_def constructor_def
        createDemoChart_None spawnNotes_def updateHoldNotes_def Let_def)
  moreover have "update 3000 (pauseGame (update 1000 (startGame 0 engine0)))
        = pauseGame (update 1000 (startGame 0 engine0))"
    by (simp add: update_def pauseGame_def startGame_def engine0_def constructor_def
        createDemoChart_None spawnNotes_def updateHoldNotes_def Let_def)
  ultimately show ?thesis
    using pause_keeps_clock_running by simp
qed

section \<open>Releases\<close>

text \<open>
  C10. A release on a lane that has no active hold (no entry in the map, or an entry whose
  note is no longer holding) leaves the whole engine state as it is.
\<close>

theorem release_without_hold:
  "(case mapGet (activeHoldNotes s) l of None \<Rightarrow> True | Some r \<Rightarrow> \<not> isHolding (objects s r))
   \<Longrightarrow> handleInput l release now s = s \<and> step (EInput l release now) s = s"
  by (auto simp: handleInput_def handleKeyRelease_def Let_def split: option.splits)

theorem release_without_hold_witness:
  "(case mapGet (activeHoldNotes (startGame 0 engine0)) Top of None \<Rightarrow> True
    | Some r \<Rightarrow> \<not> isHolding (objects (startGame 0 engine0) r))
   \<and> isPlaying (startGame 0 engine0) \<and> \<not> isPaused (startGame 0 engine0)
   \<and> handleInput Top release 5 (startGame 0 engine0) = startGame 0 engine0"
proof -
  have h: "(case mapGet (activeHoldNotes (startGame 0 engine0)) Top of None \<Rightarrow> True
            | Some r \<Rightarrow> \<not> isHolding (objects (startGame 0 engine0) r))"
    by (simp add: startGame_def engine0_def constructor_def)
  show ?thesis
    using h release_without_hold [OF h, of 5]
    by (simp add: startGame_def engine0_def constructor_def)
qed

section \<open>Presses without a target\<close>

lemmas eval_defs = createNote_def startGame_def engine0_def constructor_def
  handleInput_def handleKeyPress_def findHittableNote_def closer_def hitZonePosition_def
  calculateJudgment_def score_def updateScore_def setState_def m0_def newNote_def Let_def
  handleKeyRelease_def completeHoldNote_def toNumber_def truthy_def

lemma fold_closer_Some:
  "fst (fold (closer s) xs acc) = Some r \<Longrightarrow>
   fst acc = Some r \<or> (r \<in> set xs \<and> \<bar>fl (screenPosition (objects s r) - hitZonePosition s)\<bar> < 100)"
proof (induction xs arbitrary: acc)
  case Nil
  then show ?case by simp
next
  case (Cons x xs)
  from Cons.IH [of "closer s x acc"] Cons.prems
  show ?case
    by (auto simp: closer_def Let_def split: if_splits)
qed

lemma findHittableNote_Some:
  assumes "findHittableNote s l = Some r"
  shows "r \<in> set (liveNotes s) \<and> lane (objects s r) = l \<and> \<not> hit (objects s r)
       \<and> attached (objects s r) \<and> \<bar>fl (screenPosition (objects s r) - hitZonePosition s)\<bar> < 100"
proof -
  let ?ln = "filter (\<lambda>r. lane (objects s r) = l \<and> \<not> hit (objects s r) \<and> attached (objects s r)) (liveNotes s)"
  have "fst (fold (closer s) ?ln (None, None)) = Some r"
    using assms by (simp add: findHittableNote_def Let_def split: if_splits)
  from fold_closer_Some [OF this]
  show ?thesis by auto
qed

lemma findHittableNote_nearby: "findHittableNote s l = Some r \<Longrightarrow> r \<in> set (nearbyNotes s l)"
  using findHittableNote_Some [of s l r]
  by (simp add: nearbyNotes_def hitZonePosition_def)

lemma fold_closer_found:
  "(fst acc = None \<longleftrightarrow> snd acc = None) \<Longrightarrow>
   fst acc \<noteq> None \<or> (\<exists>r \<in> set xs. \<bar>fl (screenPosition (objects s r) - hitZonePosition s)\<bar> < 100)
   \<Longrightarrow> fst (fold (closer s) xs acc) \<noteq> None"
proof (induction xs arbitrary: acc)
  case Nil
  then show ?case by simp
next
  case (Cons x xs)
  have a: "fst (closer s x acc) = None \<longleftrightarrow> snd (closer s x acc) = None"
    using Cons.prems(1) by (simp add: closer_def Let_def)
  have b: "fst (closer s x acc) \<noteq> None
           \<or> (\<exists>r \<in> set xs. \<bar>fl (screenPosition (objects s r) - hitZonePosition s)\<bar> < 100)"
    using Cons.prems by (auto simp: closer_def Let_def split: option.splits)
  from Cons.IH [OF a b] show ?case by simp
qed

lemma no_target_no_nearby:
  assumes "unhitAttached s" and "findHittableNote s l = None"
  shows "nearbyNotes s l = []"
proof (rule ccontr)
  assume "nearbyNotes s l \<noteq> []"
  then obtain r where r: "r \<in> set (nearbyNotes s l)"
    by (cases "nearbyNotes s l") auto
  let ?ln = "filter (\<lambda>r. lane (objects s r) = l \<and> \<not> hit (objects s r) \<and> attached (objects s r)) (liveNotes s)"
  have in_ln: "r \<in> set ?ln" and d: "\<bar>fl (screenPosition (objects s r) - hitZonePosition s)\<bar> < 100"
    using r assms(1) by (auto simp: nearbyNotes_def unhitAttached_def hitZonePosition_def)
  have "?ln \<noteq> []" using in_ln by (metis empty_iff list.set(1))
  moreover have "fst (fold (closer s) ?ln (None, None)) \<noteq> None"
    using in_ln d by (intro fold_closer_found) auto
  ultimately show False
    using assms(2) by (simp add: findHittableNote_def Let_def)
qed

text \<open>The earlier engine keeps the elements of its unhit live notes attached.\<close>

lemma attachedInv_v1_createNote: "attachedInv_v1 s \<Longrightarrow> attachedInv_v1 (createNote l ht ty dur now s)"
  by (fastforce simp: attachedInv_v1_def unhitAttached_def createNote_def newNote_def)

lemma attachedInv_v1_spawnLoop: "attachedInv_v1 s \<Longrightarrow> attachedInv_v1 (spawnLoop_v1 now gt cs s)"
proof (induction cs arbitrary: s)
  case Nil
  then show ?case by simp
next
  case (Cons c cs)
  have "attachedInv_v1 (s'\<lparr>chartIndex := k\<rparr>) = attachedInv_v1 s'" for s' k
    by (simp add: attachedInv_v1_def unhitAttached_def)
  then show ?case
    using Cons by (auto simp: Let_def intro!: Cons.IH attachedInv_v1_createNote)
qed

lemma attachedInv_v1_steps:
  assumes "attachedInv_v1 s"
  shows "attachedInv_v1 (handleInput_v1 l s)" and "attachedInv_v1 (update_v1 now s)"
    and "r < nextRef s \<Longrightarrow> attachedInv_v1 (slide r s)" and "attachedInv_v1 (startGame now s)"
    and "attachedInv_v1 (pauseGame s)" and "attachedInv_v1 (stopGame_v1 s)"
proof -
  show "attachedInv_v1 (handleInput_v1 l s)"
  proof (cases "findHittableNote s l")
    case None
    then show ?thesis using assms
      by (simp add: handleInput_v1_def nearbyNotes_v1_def position_v1_def)
  next
    case (Some r)
    then show ?thesis using assms findHittableNote_Some [OF Some]
      by (auto simp: handleInput_v1_def attachedInv_v1_def unhitAttached_def Let_def score_def removeNote_def)
  qed
  show st: "attachedInv_v1 (stopGame_v1 s')" for s'
    by (simp add: attachedInv_v1_def unhitAttached_def stopGame_v1_def clearAllNotes_def Let_def)
  have a: "attachedInv_v1 (s'\<lparr>songProgress := k\<rparr>) = attachedInv_v1 s'" for s' k
    by (simp add: attachedInv_v1_def unhitAttached_def)
  show "attachedInv_v1 (update_v1 now s)"
    using assms by (simp add: update_v1_def Let_def a attachedInv_v1_spawnLoop st)
  show "attachedInv_v1 (slide r s)" if "r < nextRef s"
    using assms that
    by (auto simp: attachedInv_v1_def unhitAttached_def slide_def Let_def score_def removeNote_def)
  show "attachedInv_v1 (startGame now s)" "attachedInv_v1 (pauseGame s)"
    using assms by (auto simp: attachedInv_v1_def unhitAttached_def startGame_def pauseGame_def)
qed

text \<open>The engine with hold notes does what the claim says, in every state.\<close>

lemma handleKeyPress_without_target:
  "(findHittableNote s l = None \<and> nearbyNotes s l \<noteq> [] \<longrightarrow>
      handleKeyPress l now s = score 0 Jmiss s
      \<and> miss (gsm (handleKeyPress l now s)) = miss (gsm s) + 1
      \<and> combo (gsm (handleKeyPress l now s)) = 0
      \<and> current (gsm (handleKeyPress l now s)) = current (gsm s))
   \<and> (nearbyNotes s l = [] \<longrightarrow> handleKeyPress l now s = s \<and> handleInput l press now s = s)
   \<and> (isPlaying s \<and> \<not> isPaused s \<longrightarrow> handleInput l press now s = handleKeyPress l now s)"
proof -
  have "findHittableNote s l = None" if "nearbyNotes s l = []"
    using that findHittableNote_nearby [of s l] by (cases "findHittableNote s l") auto
  then show ?thesis
    by (auto simp: handleKeyPress_def handleInput_def score_def updateScore_def)
qed

text \<open>The earlier engine never registers a miss for a press without target.\<close>

lemma handleInput_v1_without_target: "findHittableNote s l = None \<Longrightarrow> handleInput_v1 l s = s"
  by (simp add: handleInput_v1_def nearbyNotes_v1_def position_v1_def)



section \<open>Hold scoring\<close>

lemma fl_ratio_half [simp]: "\<not> fl (9 / 10) * 2 \<le> 1" "\<not> fl (7 / 10) * 2 \<le> 1"
  by code_simp+

lemma floor_tenths_bound:
  assumes "d < 1000"
  shows "\<lfloor>fl (d / 100)\<rfloor> * 10 \<le> 100"
proof -
  have "d / 100 \<le> 10" using assms by simp
  then have "fl (d / 100) \<le> 10" by (rule fl_le_10)
  then have "\<lfloor>fl (d / 100)\<rfloor> \<le> 10" by (simp add: floor_le_iff)
  then show ?thesis by simp
qed

lemma holdProgress_tick:
  assumes hp: "holdProgress s0 l r t0 j s" and nz: "t0 \<noteq> 0" and early: "fl (g - t0) < 1000"
  shows "\<exists>j'. j \<le> j' \<and> holdProgress s0 l r t0 j' (updateHoldNotes g s)"
proof -
  let ?pp = "\<lfloor>fl (fl (g - t0) / 100)\<rfloor> * 10"
  have pp: "?pp \<le> 100" using early by (rule floor_tenths_bound)
  have nc: "\<not> (1000 \<le> fl (g - t0))" using early by simp
  show ?thesis
  proof (cases "?pp - holdScore (objects s r) > 0")
    case True
    then have "10 * int j < ?pp" using hp by (simp add: holdProgress_def)
    then have "10 * int (Suc j) \<le> ?pp" by simp
    then have "holdProgress s0 l r t0 (Suc j) (updateHoldNotes g s)"
      using hp nz nc True pp
      by (simp add: holdProgress_def updateHoldNotes_def holdStep_def Let_def truthy_def
          toNumber_def score_def updateScore_def)
    then show ?thesis by (intro exI [of _ "Suc j"]) simp
  next
    case False
    then have "holdProgress s0 l r t0 j (updateHoldNotes g s)"
      using hp nz nc
      by (simp add: holdProgress_def updateHoldNotes_def holdStep_def Let_def truthy_def
          toNumber_def)
    then show ?thesis by (intro exI [of _ j]) simp
  qed
qed

lemma holdProgress_ticks:
  assumes "holdProgress s0 l r t0 j s" and "t0 \<noteq> 0" and "\<forall>g \<in> set gs. fl (g - t0) < 1000"
  shows "\<exists>j'. j \<le> j' \<and> holdProgress s0 l r t0 j' (fold updateHoldNotes gs s)"
  using assms
proof (induction gs arbitrary: j s)
  case Nil
  then show ?case by auto
next
  case (Cons g gs)
  obtain j1 where j1: "j \<le> j1" "holdProgress s0 l r t0 j1 (updateHoldNotes g s)"
    using holdProgress_tick [OF Cons.prems(1,2), of g] Cons.prems(3) by auto
  obtain j2 where "j1 \<le> j2" "holdProgress s0 l r t0 j2 (fold updateHoldNotes gs (updateHoldNotes g s))"
    using Cons.IH [OF j1(2) Cons.prems(2)] Cons.prems(3) by auto
  then show ?case using j1(1) by (intro exI [of _ j2]) simp
qed

text \<open>The frame that finds the hold duration 1000 awards what is left of the 100 points,
  if anything, and completes the hold.\<close>

lemma holdProgress_complete:
  assumes hp: "holdProgress s0 l r t0 j s" and nz: "t0 \<noteq> 0" and full: "fl (g - t0) = 1000"
  shows "\<exists>k. 1 \<le> k \<and> k \<le> 10
       \<and> current (gsm (updateHoldNotes g s)) = current (gsm s0) + 600
       \<and> holdScore (objects (updateHoldNotes g s) r) = 100
       \<and> perfect (gsm (updateHoldNotes g s)) = perfect (gsm s0) + 1
       \<and> holdCount (gsm (updateHoldNotes g s)) = holdCount (gsm s0) + k
       \<and> combo (gsm (updateHoldNotes g s)) = combo (gsm s0) + k + 1
       \<and> miss (gsm (updateHoldNotes g s)) = miss (gsm s0)
       \<and> great (gsm (updateHoldNotes g s)) = great (gsm s0)
       \<and> good (gsm (updateHoldNotes g s)) = good (gsm s0)
       \<and> activeHoldNotes (updateHoldNotes g s) = []
       \<and> \<not> isHolding (objects (updateHoldNotes g s) r)"
proof (cases "holdScore (objects s r) < 100")
  case True
  then have "j + 1 \<le> 10" using hp by (simp add: holdProgress_def)
  then show ?thesis
    using hp nz full True
    by (intro exI [of _ "j + 1"])
      (simp add: holdProgress_def updateHoldNotes_def holdStep_def Let_def truthy_def
        toNumber_def score_def updateScore_def completeHoldNote_def)
next
  case False
  then have h: "holdScore (objects s r) = 100" using hp by (simp add: holdProgress_def)
  then have "1 \<le> j \<and> j \<le> 10" using hp by (simp add: holdProgress_def)
  then show ?thesis
    using hp nz full h
    by (intro exI [of _ j])
      (simp add: holdProgress_def updateHoldNotes_def holdStep_def Let_def truthy_def
        toNumber_def score_def updateScore_def completeHoldNote_def)
qed

text \<open>The hold duration is the rounded difference of two doubles: between the clock
  readings 100.3 and 1100.3 it is exactly 1000, although the two doubles are not 1000
  apart.\<close>

lemma hold_duration_rounded:
  "fl (fl (11003 / 10) - fl (1003 / 10)) = 1000 \<and> fl (11003 / 10) - fl (1003 / 10) \<noteq> 1000"
  by code_simp

text \<open>The press that hits a hold note starts the hold and scores the press's judgment.\<close>

lemma calculateJudgment_cases:
  "calculateJudgment s n = Jperfect \<or> calculateJudgment s n = Jgreat
   \<or> calculateJudgment s n = Jgood \<or> calculateJudgment s n = Jmiss"
  by (simp add: calculateJudgment_def Let_def)

lemma press_starts_hold:
  assumes "findHittableNote s l = Some r" and "ntype (objects s r) = Hold"
    and "duration (objects s r) = 1000" and "holdScore (objects s r) = 0"
    and "activeHoldNotes s = []"
  shows "holdProgress (handleKeyPress l now s) l r (fl (now - startTime s)) 0 (handleKeyPress l now s)"
    and "gsm (handleKeyPress l now s)
         = updateScore (calculateScore (calculateJudgment s (objects s r)))
             (calculateJudgment s (objects s r)) (gsm s)"
  using assms findHittableNote_Some [OF assms(1)]
  by (simp_all add: handleKeyPress_def holdProgress_def Let_def score_def)

text \<open>
  C3, as the claim states it: a hold of 1000 ms held for exactly 1000 ms raises the combo
  by exactly one. The note below is pressed at 100 ms and completed by the frame at
  1100 ms: the combo is 0 before the press, 1 after it and 3 after the frame (one
  progressive award and the completion each count), while the score grows by 100 + 500.
\<close>

theorem full_hold_combo_counterexample:
  "combo (gsm sHold) = 0 \<and> combo (gsm sHeld) = 1
   \<and> duration (objects sHeld 0) = 1000 \<and> holdStartTime (objects sHeld 0) = Some 100
   \<and> combo (gsm (update 1100 sHeld)) = 3
   \<and> current (gsm (update 1100 sHeld)) = current (gsm sHeld) + 600
   \<and> \<not> isHolding (objects (update 1100 sHeld) 0)"
  by (simp add: sHeld_def sHold_def eval_defs update_def spawnNotes_def updateHoldNotes_def
      holdStep_def createDemoChart_None)

text \<open>
  C3, amended. In an active session a press at the game time \<open>t0\<close>, not 0, hits a hold
  note of 1000 ms that has no progressive score yet, while no other hold is active. Any
  frames follow at which the hold has lasted less than 1000 ms, and then the frame at
  which it has lasted exactly 1000 ms (the durations as the frames compute them). That
  frame completes the hold, and in all:

  \<^item> the press scores the points of its own judgment and is counted as that judgment; a
    press judged a miss (more than 90 units from the hit zone) resets the combo to 0 and
    still starts the hold, any other press raises the combo by one;
  \<^item> the progressive awards add up to exactly 100 points, none twice, in \<open>j\<close> awards,
    between 1 and 10 of them;
  \<^item> the completion adds exactly 500 points and one perfect judgment;
  \<^item> the combo goes up once for each progressive award and once for the completion, on
    top of what the press left: not exactly once;
  \<^item> no other judgment is counted, and the lane leaves the map.
\<close>

theorem full_hold_scoring:
  assumes "isPlaying s" and "\<not> isPaused s"
    and "findHittableNote s l = Some r" and "ntype (objects s r) = Hold"
    and "duration (objects s r) = 1000" and "holdScore (objects s r) = 0"
    and "activeHoldNotes s = []"
    and "t0 = fl (now - startTime s)" and "t0 \<noteq> 0"
    and "\<forall>g \<in> set gs. fl (g - t0) < 1000" and "fl (g1 - t0) = 1000"
    and "judgment = calculateJudgment s (objects s r)"
    and "s' = updateHoldNotes g1 (fold updateHoldNotes gs (handleInput l press now s))"
  shows "current (gsm s') = current (gsm s) + calculateScore judgment + 100 + 500
       \<and> holdScore (objects s' r) = 100
       \<and> (\<exists>j. 1 \<le> j \<and> j \<le> 10 \<and> holdCount (gsm s') = holdCount (gsm s) + j
              \<and> combo (gsm s') = (if judgment = Jmiss then 0 else combo (gsm s) + 1) + j + 1)
       \<and> perfect (gsm s') = perfect (gsm s) + (if judgment = Jperfect then 1 else 0) + 1
       \<and> great (gsm s') = great (gsm s) + (if judgment = Jgreat then 1 else 0)
       \<and> good (gsm s') = good (gsm s) + (if judgment = Jgood then 1 else 0)
       \<and> miss (gsm s') = miss (gsm s) + (if judgment = Jmiss then 1 else 0)
       \<and> activeHoldNotes s' = [] \<and> \<not> isHolding (objects s' r)"
proof -
  let ?s1 = "handleKeyPress l now s"
  have s1: "handleInput l press now s = ?s1"
    using assms(1,2) by (simp add: handleInput_def)
  have hp: "holdProgress ?s1 l r t0 0 ?s1"
    unfolding assms(8) by (rule press_starts_hold(1) [OF assms(3-7)])
  have g: "gsm ?s1 = updateScore (calculateScore judgment) judgment (gsm s)"
    unfolding assms(12) by (rule press_starts_hold(2) [OF assms(3-7)])
  obtain j where j: "holdProgress ?s1 l r t0 j (fold updateHoldNotes gs ?s1)"
    using holdProgress_ticks [OF hp assms(9,10)] by blast
  obtain k where k: "1 \<le> k" "k \<le> 10"
    and c: "current (gsm s') = current (gsm ?s1) + 600"
      "holdScore (objects s' r) = 100"
      "perfect (gsm s') = perfect (gsm ?s1) + 1"
      "holdCount (gsm s') = holdCount (gsm ?s1) + k"
      "combo (gsm s') = combo (gsm ?s1) + k + 1"
      "miss (gsm s') = miss (gsm ?s1)"
      "great (gsm s') = great (gsm ?s1)"
      "good (gsm s') = good (gsm ?s1)"
      "activeHoldNotes s' = []" "\<not> isHolding (objects s' r)"
    using holdProgress_complete [OF j assms(9,11)] unfolding assms(13) s1 by blast
  have "judgment = Jperfect \<or> judgment = Jgreat \<or> judgment = Jgood \<or> judgment = Jmiss"
    unfolding assms(12) by (rule calculateJudgment_cases)
  then have "current (gsm ?s1) = current (gsm s) + calculateScore judgment
      \<and> holdCount (gsm ?s1) = holdCount (gsm s)
      \<and> combo (gsm ?s1) = (if judgment = Jmiss then 0 else combo (gsm s) + 1)
      \<and> perfect (gsm ?s1) = perfect (gsm s) + (if judgment = Jperfect then 1 else 0)
      \<and> great (gsm ?s1) = great (gsm s) + (if judgment = Jgreat then 1 else 0)
      \<and> good (gsm ?s1) = good (gsm s) + (if judgment = Jgood then 1 else 0)
      \<and> miss (gsm ?s1) = miss (gsm s) + (if judgment = Jmiss then 1 else 0)"
    unfolding g by (auto simp: updateScore_def)
  then show ?thesis
    using c k by (intro conjI exI [of _ k]) simp_all
qed

text \<open>The note of \<open>sHold\<close> is 85 units from the hit zone: the press at 100 ms is judged
  good, and the frames at 150, 400 and 1000 ms precede the completing frame at 1100 ms.
  The note of \<open>sLate\<close> is 95 units past the hit zone: the press at 700 ms is judged a
  miss, and the frame at 900 ms precedes the completing frame at 1700 ms.\<close>

theorem full_hold_scoring_witness:
  "isPlaying sHold \<and> \<not> isPaused sHold
   \<and> findHittableNote sHold Top = Some 0 \<and> ntype (objects sHold 0) = Hold
   \<and> duration (objects sHold 0) = 1000 \<and> holdScore (objects sHold 0) = 0
   \<and> activeHoldNotes sHold = []
   \<and> fl (100 - startTime sHold) = 100
   \<and> fl (150 - 100) < 1000 \<and> fl (400 - 100) < 1000 \<and> fl (1000 - 100) < 1000
   \<and> fl (1100 - 100) = 1000
   \<and> calculateJudgment sHold (objects sHold 0) = Jgood
   \<and> current (gsm sHold) = 0
   \<and> current (gsm (updateHoldNotes 1100
        (fold updateHoldNotes [150, 400, 1000] (handleInput Top press 100 sHold)))) = 700
   \<and> perfect (gsm (updateHoldNotes 1100
        (fold updateHoldNotes [150, 400, 1000] (handleInput Top press 100 sHold)))) = 1
   \<and> good (gsm (updateHoldNotes 1100
        (fold updateHoldNotes [150, 400, 1000] (handleInput Top press 100 sHold)))) = 1
   \<and> activeHoldNotes (updateHoldNotes 1100
        (fold updateHoldNotes [150, 400, 1000] (handleInput Top press 100 sHold))) = []
   \<and> isPlaying sLate \<and> \<not> isPaused sLate
   \<and> findHittableNote sLate Top = Some 0 \<and> ntype (objects sLate 0) = Hold
   \<and> duration (objects sLate 0) = 1000 \<and> holdScore (objects sLate 0) = 0
   \<and> activeHoldNotes sLate = []
   \<and> fl (700 - startTime sLate) = 700 \<and> fl (900 - 700) < 1000 \<and> fl (1700 - 700) = 1000
   \<and> calculateJudgment sLate (objects sLate 0) = Jmiss
   \<and> current (gsm sLate) = 0 \<and> miss (gsm sLate) = 0
   \<and> current (gsm (updateHoldNotes 1700
        (fold updateHoldNotes [900] (handleInput Top press 700 sLate)))) = 600
   \<and> miss (gsm (updateHoldNotes 1700
        (fold updateHoldNotes [900] (handleInput Top press 700 sLate)))) = 1
   \<and> perfect (gsm (updateHoldNotes 1700
        (fold updateHoldNotes [900] (handleInput Top press 700 sLate)))) = 1"
proof -
  have h: "isPlaying sHold" "\<not> isPaused sHold"
    "findHittableNote sHold Top = Some 0" "ntype (objects sHold 0) = Hold"
    "duration (objects sHold 0) = 1000" "holdScore (objects sHold 0) = 0"
    "activeHoldNotes sHold = []"
    "100 = fl (100 - startTime sHold)" "(100 :: rat) \<noteq> 0"
    "\<forall>g \<in> set [150, 400, 1000]. fl (g - 100) < 1000" "fl (1100 - 100) = 1000"
    "Jgood = calculateJudgment sHold (objects sHold 0)"
    by (simp_all add: sHold_def eval_defs)
  have g: "current (gsm sHold) = 0" "perfect (gsm sHold) = 0" "good (gsm sHold) = 0"
    by (simp_all add: sHold_def eval_defs)
  have h': "isPlaying sLate" "\<not> isPaused sLate"
    "findHittableNote sLate Top = Some 0" "ntype (objects sLate 0) = Hold"
    "duration (objects sLate 0) = 1000" "holdScore (objects sLate 0) = 0"
    "activeHoldNotes sLate = []"
    "700 = fl (700 - startTime sLate)" "(700 :: rat) \<noteq> 0"
    "\<forall>g \<in> set [900]. fl (g - 700) < 1000" "fl (1700 - 700) = 1000"
    "Jmiss = calculateJudgment sLate (objects sLate 0)"
    by (simp_all add: sLate_def run_def slide_def sHold_def eval_defs numeral_eq_Suc)
  have g': "current (gsm sLate) = 0" "perfect (gsm sLate) = 0" "miss (gsm sLate) = 0"
    by (simp_all add: sLate_def run_def slide_def sHold_def eval_defs numeral_eq_Suc)
  show ?thesis
    using h g h' g' full_hold_scoring [OF h refl] full_hold_scoring [OF h' refl]
    by simp
qed

text \<open>A late press: the note of \<open>sLate\<close> is 95 units past the hit zone, the press is
  judged a miss and starts the hold all the same.\<close>

lemma late_press_starts_hold:
  "screenPosition (objects sLate 0) = - 80
   \<and> findHittableNote sLate Top = Some 0
   \<and> calculateJudgment sLate (objects sLate 0) = Jmiss
   \<and> miss (gsm (handleInput Top press 700 sLate)) = 1
   \<and> combo (gsm (handleInput Top press 700 sLate)) = 0
   \<and> isHolding (objects (handleInput Top press 700 sLate) 0)
   \<and> activeHoldNotes (handleInput Top press 700 sLate) = [(Top, 0)]"
  by (simp add: sLate_def run_def slide_def sHold_def eval_defs numeral_eq_Suc)

text \<open>An early release below 70 percent leaves the scores and counters as they are.\<close>

lemma early_release_general:
  assumes "isPlaying s" and "\<not> isPaused s" and "mapGet (activeHoldNotes s) l = Some r"
    and "isHolding (objects s r)"
    and "held = fl (fl (now - startTime s) - toNumber (holdStartTime (objects s r)))"
    and "held < duration (objects s r)"
    and "fl (held / duration (objects s r)) < fl (7 / 10)"
    and "fl (7 / 10) \<le> fl (9 / 10)"
  shows "gsm (handleInput l release now s) = gsm s"
  using assms
  by (simp add: handleInput_def handleKeyRelease_def Let_def completeHoldNote_def)

text \<open>
  C4. A hold note of 1000 ms is pressed at 100 ms and released at 600 ms, at the completion
  ratio 0.5: the release is resolved as a miss, but the miss count stays 0 and the combo
  stays 1, as the whole score state does.
\<close>

theorem early_release_not_scored:
  "isHolding (objects sHeld 0) \<and> mapGet (activeHoldNotes sHeld) Top = Some 0
   \<and> duration (objects sHeld 0) = 1000 \<and> holdStartTime (objects sHeld 0) = Some 100
   \<and> combo (gsm sHeld) = 1 \<and> miss (gsm sHeld) = 0
   \<and> combo (gsm (handleInput Top release 600 sHeld)) = 1
   \<and> miss (gsm (handleInput Top release 600 sHeld)) = 0
   \<and> gsm (handleInput Top release 600 sHeld) = gsm sHeld
   \<and> activeHoldNotes (handleInput Top release 600 sHeld) = []
   \<and> \<not> isHolding (objects (handleInput Top release 600 sHeld) 0)"
  by (simp add: sHeld_def sHold_def eval_defs)

theorem early_release_not_scored_witness:
  "isPlaying sHeld \<and> \<not> isPaused sHeld
   \<and> fl (fl (fl (600 - startTime sHeld) - toNumber (holdStartTime (objects sHeld 0)))
           / duration (objects sHeld 0))
       = 1 / 2
   \<and> miss (gsm (handleInput Top release 600 sHeld)) = miss (gsm sHeld)
   \<and> combo (gsm (handleInput Top release 600 sHeld)) = combo (gsm sHeld)"
proof -
  have "isPlaying sHeld \<and> \<not> isPaused sHeld \<and> startTime sHeld = 0"
    by (simp add: sHeld_def sHold_def eval_defs)
  then show ?thesis
    using early_release_not_scored by (simp add: toNumber_def)
qed

section \<open>The map of active holds\<close>

lemma mapGet_map_of: "mapGet m k = map_of m k"
  by (induction m) auto

lemma map_fst_mapSet:
  "map fst (mapSet k v m) = (if k \<in> set (map fst m) then map fst m else map fst m @ [k])"
  by (induction m) (force simp: image_iff)+

lemma map_of_mapSet: "map_of (mapSet k v m) = (map_of m)(k \<mapsto> v)"
  by (induction m) auto

lemma distinct_mapSet: "distinct (map fst m) \<Longrightarrow> distinct (map fst (mapSet k v m))"
  by (simp only: map_fst_mapSet split: if_splits) simp

lemma map_fst_mapDelete: "map fst (mapDelete k m) = remove1 k (map fst m)"
  by (induction m) auto

lemma map_of_mapDelete:
  "distinct (map fst m) \<Longrightarrow> map_of (mapDelete k m) = (map_of m)(k := None)"
  by (induction m) (auto simp: fun_eq_iff map_of_eq_None_iff [symmetric])

lemma distinct_mapDelete: "distinct (map fst m) \<Longrightarrow> distinct (map fst (mapDelete k m))"
  by (simp add: map_fst_mapDelete)

lemma mapGet_mapSet: "mapGet (mapSet k v m) k' = (if k' = k then Some v else mapGet m k')"
  by (simp add: mapGet_map_of map_of_mapSet)

lemma mapGet_mapDelete:
  "distinct (map fst m) \<Longrightarrow> mapGet (mapDelete k m) k' = (if k' = k then None else mapGet m k')"
  by (simp add: mapGet_map_of map_of_mapDelete)

lemma in_set_mapSet:
  "distinct (map fst m) \<Longrightarrow> x \<in> set (mapSet k v m) \<longleftrightarrow> x = (k, v) \<or> (x \<in> set m \<and> fst x \<noteq> k)"
  using map_of_eq_Some_iff [OF distinct_mapSet, of m k v "fst x" "snd x"]
    map_of_eq_Some_iff [of m "fst x" "snd x"]
  by (cases x) (auto simp: map_of_mapSet split: if_splits)

lemma in_set_mapDelete:
  "distinct (map fst m) \<Longrightarrow> x \<in> set (mapDelete k m) \<longleftrightarrow> x \<in> set m \<and> fst x \<noteq> k"
  using map_of_eq_Some_iff [OF distinct_mapDelete, of m k "fst x" "snd x"]
    map_of_eq_Some_iff [of m "fst x" "snd x"]
  by (cases x) (auto simp: map_of_mapDelete split: if_splits)

lemma mapGet_SomeD: "mapGet m k = Some v \<Longrightarrow> (k, v) \<in> set m"
  by (simp add: mapGet_map_of map_of_SomeD)

lemma mapGet_Some_iff: "distinct (map fst m) \<Longrightarrow> mapGet m k = Some v \<longleftrightarrow> (k, v) \<in> set m"
  by (simp add: mapGet_map_of)


lemmas holdMapInv_defs = holdMapInv_def wellFormed_def entriesHolding_def unhitAttached_def

lemma holdMapInv_score [simp]: "holdMapInv (score p j s) = holdMapInv s"
  by (simp add: holdMapInv_defs score_def)

lemma holdMapInv_createNote: "holdMapInv s \<Longrightarrow> holdMapInv (createNote l ht ty dur now s)"
  by (fastforce simp: holdMapInv_defs createNote_def newNote_def)

lemma holdMapInv_removeNote:
  "holdMapInv s \<Longrightarrow> hit (objects s r) \<or> r \<notin> set (liveNotes s) \<Longrightarrow> holdMapInv (removeNote r s)"
  by (fastforce simp: holdMapInv_defs removeNote_def)

lemma holdMapInv_completeHoldNote:
  assumes "holdMapInv s" and "(lane (objects s r), r) \<in> set (activeHoldNotes s)"
  shows "holdMapInv (completeHoldNote r j s)"
proof -
  have d: "distinct (map fst (activeHoldNotes s))"
    using assms(1) by (simp add: holdMapInv_defs)
  have other: "r' \<noteq> r" if "(l', r') \<in> set (activeHoldNotes s)" "l' \<noteq> lane (objects s r)" for l' r'
    using that assms(1) by (auto simp: holdMapInv_defs)
  have hitr: "hit (objects s r) \<and> r < nextRef s"
    using assms by (auto simp: holdMapInv_defs)
  show ?thesis
    using assms(1) d other hitr
    by (auto simp: holdMapInv_defs completeHoldNote_def score_def Let_def in_set_mapDelete distinct_mapDelete)
qed


lemma holdMapInv_handleKeyPress: 
  assumes "holdMapInv s" 
  shows "holdMapInv (handleKeyPress l now s)"
proof (cases "findHittableNote s l")
  case None
  then show ?thesis using assms by (simp add: handleKeyPress_def)
next
  case (Some r)
  note fh = findHittableNote_Some [OF Some]
  have d: "distinct (map fst (activeHoldNotes s))"
    using assms(1) by (simp add: holdMapInv_defs)
  have other: "r' \<noteq> r" if "(l', r') \<in> set (activeHoldNotes s)" for l' r'
    using that assms(1) fh by (auto simp: holdMapInv_defs)
  have timers: "r' \<noteq> r" if "r' \<in> set (removeTimers s)" for r'
    using that assms(1) fh by (auto simp: holdMapInv_defs)
  have lt: "r < nextRef s" using assms fh by (auto simp: holdMapInv_defs)
  show ?thesis
  proof (cases "ntype (objects s r) = Hold")
    case True
    then show ?thesis
      using assms d other timers lt fh Some
      by (auto simp: handleKeyPress_def Let_def holdMapInv_defs in_set_mapSet distinct_mapSet score_def)
  next
    case False
    then show ?thesis
      using assms d other timers lt fh Some
      by (auto simp: handleKeyPress_def Let_def holdMapInv_defs removeNote_def score_def)
  qed
qed

lemma holdMapInv_handleKeyRelease:
  assumes "holdMapInv s"
  shows "holdMapInv (handleKeyRelease l now s)"
proof (cases "mapGet (activeHoldNotes s) l")
  case None
  then show ?thesis using assms by (simp add: handleKeyRelease_def)
next
  case (Some r)
  then have "(l, r) \<in> set (activeHoldNotes s)" by (rule mapGet_SomeD)
  then have "(lane (objects s r), r) \<in> set (activeHoldNotes s)"
    using assms by (auto simp: holdMapInv_defs)
  then show ?thesis
    using assms Some holdMapInv_completeHoldNote [of s r]
    by (simp add: handleKeyRelease_def Let_def)
qed

lemma holdStep_cases:
  "holdStep t r s = s
   \<or> (\<exists>p hs s1.
         (s1 = s \<or> s1 = score p Jhold (s\<lparr>objects := (objects s)(r := (objects s r)\<lparr>holdScore := hs\<rparr>)\<rparr>))
         \<and> (holdStep t r s = s1 \<or> holdStep t r s = completeHoldNote r Jperfect s1))"
proof (cases "isHolding (objects s r) \<and> truthy (holdStartTime (objects s r))")
  case False
  then have "holdStep t r s = s" by (auto simp: holdStep_def Let_def)
  then show ?thesis by (rule disjI1)
next
  case True
  define hd where "hd = fl (t - toNumber (holdStartTime (objects s r)))"
  define pp where "pp = \<lfloor>fl (hd / 100)\<rfloor> * 10"
  define s1 where "s1 = (if 0 < pp - holdScore (objects s r)
      then score (pp - holdScore (objects s r)) Jhold
             (s\<lparr>objects := (objects s)(r := (objects s r)\<lparr>holdScore := pp\<rparr>)\<rparr>)
      else s)"
  have "holdStep t r s = (if duration (objects s r) \<le> hd then completeHoldNote r Jperfect s1 else s1)"
    using True by (simp add: holdStep_def Let_def s1_def pp_def hd_def)
  moreover have "s1 = s \<or> s1 = score (pp - holdScore (objects s r)) Jhold
             (s\<lparr>objects := (objects s)(r := (objects s r)\<lparr>holdScore := pp\<rparr>)\<rparr>)"
    by (simp add: s1_def)
  ultimately show ?thesis by metis
qed

lemma holdMapInv_holdScore:
  "holdMapInv (s\<lparr>objects := (objects s)(r := (objects s r)\<lparr>holdScore := hs\<rparr>)\<rparr>) = holdMapInv s"
  by (auto simp: holdMapInv_defs)

lemma holdMapInv_holdStep:
  assumes "holdMapInv s" and "mapGet (activeHoldNotes s) l = Some r"
  shows "holdMapInv (holdStep t r s)"
proof (cases "holdStep t r s = s")
  case True
  then show ?thesis using assms(1) by simp
next
  case False
  then obtain p hs s1 where 2:
    "s1 = s \<or> s1 = score p Jhold (s\<lparr>objects := (objects s)(r := (objects s r)\<lparr>holdScore := hs\<rparr>)\<rparr>)"
    "holdStep t r s = s1 \<or> holdStep t r s = completeHoldNote r Jperfect s1"
    using holdStep_cases [of t r s] by blast
  have e: "(l, r) \<in> set (activeHoldNotes s)" using assms(2) by (rule mapGet_SomeD)
  then have lr: "lane (objects s r) = l" using assms(1) by (auto simp: holdMapInv_defs)
  have i1: "holdMapInv s1" using 2(1) assms(1) by (auto simp: holdMapInv_holdScore)
  have e1: "(lane (objects s1 r), r) \<in> set (activeHoldNotes s1)"
    using 2(1) e lr by (auto simp: score_def)
  show ?thesis
    using 2(2) i1 holdMapInv_completeHoldNote [OF i1 e1] by auto
qed

lemma holdMapInv_holdLoop: "holdMapInv s \<Longrightarrow> holdMapInv (holdLoop t ls s)"
proof (induction ls arbitrary: s)
  case Nil
  then show ?case by simp
next
  case (Cons l ls)
  then show ?case
    by (cases "mapGet (activeHoldNotes s) l") (auto intro: holdMapInv_holdStep)
qed

lemma holdMapInv_spawnLoop: "holdMapInv s \<Longrightarrow> holdMapInv (spawnLoop now gt cs s)"
proof (induction cs arbitrary: s)
  case Nil
  then show ?case by simp
next
  case (Cons c cs)
  have "holdMapInv (s'\<lparr>chartIndex := k\<rparr>) = holdMapInv s'" for s' k
    by (simp add: holdMapInv_defs)
  then show ?case
    using Cons by (auto simp: Let_def intro!: Cons.IH holdMapInv_createNote)
qed

lemma fold_removeNote:
  "objects (fold removeNote rs s) r = (if r \<in> set rs then (objects s r)\<lparr>attached := False\<rparr> else objects s r)
   \<and> liveNotes (fold removeNote rs s) = liveNotes s
   \<and> activeHoldNotes (fold removeNote rs s) = activeHoldNotes s
   \<and> nextRef (fold removeNote rs s) = nextRef s
   \<and> removeTimers (fold removeNote rs s) = removeTimers s"
  by (induction rs arbitrary: s) (auto simp: removeNote_def)

lemma holdMapInv_stopGame: "holdMapInv s \<Longrightarrow> holdMapInv (stopGame s)"
  by (auto simp: holdMapInv_defs stopGame_def clearAllNotes_def Let_def fold_removeNote)

lemma holdMapInv_slide: "holdMapInv s \<Longrightarrow> r < nextRef s \<Longrightarrow> holdMapInv (slide r s)"
  by (auto simp: holdMapInv_defs slide_def Let_def score_def removeNote_def)

lemma holdMapInv_noteFlowTick: "holdMapInv s \<Longrightarrow> holdMapInv (noteFlowTick now s)"
proof -
  have a: "holdMapInv (s'\<lparr>noteId := k\<rparr>) = holdMapInv s'" for s' k
    by (simp add: holdMapInv_defs)
  have b: "holdMapInv (s'\<lparr>patternIndex := k\<rparr>) = holdMapInv s'" for s' k
    by (simp add: holdMapInv_defs)
  have c: "holdMapInv (s'\<lparr>flowActive := k\<rparr>) = holdMapInv s'" for s' k
    by (simp add: holdMapInv_defs)
  have d: "holdMapInv s' \<Longrightarrow> holdMapInv (flowSpawn l ty dur now s')" for s' l ty dur
    by (simp add: flowSpawn_def a holdMapInv_createNote)
  assume "holdMapInv s"
  then show ?thesis
    by (simp add: noteFlowTick_def Let_def b c d)
qed

lemma holdMapInv_update: "holdMapInv s \<Longrightarrow> holdMapInv (update now s)"
proof -
  assume i: "holdMapInv s"
  have a: "holdMapInv (s'\<lparr>songProgress := k\<rparr>) = holdMapInv s'" for s' k
    by (simp add: holdMapInv_defs)
  show ?thesis
    using i by (simp add: update_def Let_def spawnNotes_def updateHoldNotes_def a
        holdMapInv_spawnLoop holdMapInv_holdLoop holdMapInv_stopGame)
qed

lemma holdMapInv_step: "holdMapInv s \<Longrightarrow> holdMapInv (step e s)"
proof (cases e)
  case (EStart now)
  assume "holdMapInv s"
  then show ?thesis using EStart by (auto simp: holdMapInv_defs startGame_def)
next
  case EPause
  assume "holdMapInv s"
  then show ?thesis using EPause by (auto simp: holdMapInv_defs pauseGame_def)
next
  case EStop
  assume "holdMapInv s"
  then show ?thesis using EStop by (simp add: holdMapInv_stopGame)
next
  case (EFrame now)
  assume "holdMapInv s"
  then show ?thesis using EFrame by (simp add: holdMapInv_update)
next
  case (EInput l a now)
  assume "holdMapInv s"
  then show ?thesis using EInput
    by (cases a) (simp_all add: handleInput_def holdMapInv_handleKeyPress holdMapInv_handleKeyRelease)
next
  case (ESlide r)
  assume "holdMapInv s"
  then show ?thesis using ESlide by (simp add: holdMapInv_slide)
next
  case EFlowStart
  assume "holdMapInv s"
  then show ?thesis using EFlowStart by (auto simp: holdMapInv_defs startNoteFlow_def)
next
  case (EFlowTick now)
  assume "holdMapInv s"
  then show ?thesis using EFlowTick by (simp add: holdMapInv_noteFlowTick)
next
  case (ERemove r)
  assume i: "holdMapInv s"
  have t: "holdMapInv (s'\<lparr>removeTimers := remove1 r (removeTimers s')\<rparr>)" if "holdMapInv s'" for s'
    using that by (auto simp: holdMapInv_defs dest: notin_set_remove1)
  have "holdMapInv (removeNote r s)" if "r \<in> set (removeTimers s)"
    using i that by (intro holdMapInv_removeNote) (auto simp: holdMapInv_defs)
  then show ?thesis
    using ERemove i t [of "removeNote r s"] by (auto simp: removeNote_def)
qed

lemma holdMapInv_run: "holdMapInv s \<Longrightarrow> holdMapInv (run es s)"
  unfolding run_def by (induction es arbitrary: s) (auto intro: holdMapInv_step)


lemmas fullInv_defs = fullInv_def holdingHasEntry_def

lemma fullInv_score [simp]: "fullInv (score p j s) = fullInv s"
  by (simp add: fullInv_defs) (simp add: score_def)

lemma fullInv_createNote: "fullInv s \<Longrightarrow> fullInv (createNote l ht ty dur now s)"
  by (auto simp: fullInv_defs holdMapInv_createNote)
    (auto simp: holdMapInv_defs createNote_def newNote_def split: if_splits)

lemma fullInv_completeHoldNote:
  assumes "fullInv s" and "(lane (objects s r), r) \<in> set (activeHoldNotes s)"
  shows "fullInv (completeHoldNote r j s)"
proof -
  have i: "holdMapInv s" using assms(1) by (simp add: fullInv_def)
  have d: "distinct (map fst (activeHoldNotes s))"
    using i by (simp add: holdMapInv_defs)
  have g: "mapGet (activeHoldNotes s) (lane (objects s r)) = Some r"
    using assms(2) d by (simp add: mapGet_Some_iff)
  have other: "lane (objects s r') \<noteq> lane (objects s r)"
    if "r' \<in> set (liveNotes s)" "isHolding (objects s r')" "r' \<noteq> r" for r'
    using that assms(1) g by (auto simp: fullInv_defs)
  have "holdingHasEntry (completeHoldNote r j s)"
    using assms(1) d other
    by (auto simp: fullInv_defs completeHoldNote_def score_def Let_def mapGet_mapDelete)
  then show ?thesis
    using holdMapInv_completeHoldNote [OF i assms(2)] by (simp add: fullInv_def)
qed

lemma fullInv_handleKeyPress:
  assumes "fullInv s" and "noStackedHold s (EInput l press now)" and "isPlaying s" and "\<not> isPaused s"
  shows "fullInv (handleKeyPress l now s)"
proof (cases "findHittableNote s l")
  case None
  then show ?thesis using assms by (simp add: handleKeyPress_def)
next
  case (Some r)
  note fh = findHittableNote_Some [OF Some]
  have i: "holdMapInv s" using assms(1) by (simp add: fullInv_def)
  have "holdingHasEntry (handleKeyPress l now s)"
  proof (cases "ntype (objects s r) = Hold")
    case True
    then have free: "mapGet (activeHoldNotes s) l = None"
      using assms(2-4) Some by (simp add: noStackedHold_def)
    have other: "lane (objects s r') \<noteq> l"
      if "r' \<in> set (liveNotes s)" "isHolding (objects s r')" for r'
      using that assms(1) free by (auto simp: fullInv_defs)
    show ?thesis
      using assms(1) True Some fh other
      by (auto simp: fullInv_defs handleKeyPress_def Let_def score_def mapGet_mapSet)
  next
    case False
    then show ?thesis
      using assms(1) Some fh
      by (auto simp: fullInv_defs handleKeyPress_def Let_def score_def removeNote_def)
  qed
  then show ?thesis using holdMapInv_handleKeyPress [OF i] by (simp add: fullInv_def)
qed

lemma fullInv_handleKeyRelease:
  assumes "fullInv s"
  shows "fullInv (handleKeyRelease l now s)"
proof (cases "mapGet (activeHoldNotes s) l")
  case None
  then show ?thesis using assms by (simp add: handleKeyRelease_def)
next
  case (Some r)
  then have "(l, r) \<in> set (activeHoldNotes s)" by (rule mapGet_SomeD)
  then have "(lane (objects s r), r) \<in> set (activeHoldNotes s)"
    using assms by (auto simp: fullInv_def holdMapInv_defs)
  then show ?thesis
    using assms Some fullInv_completeHoldNote [of s r]
    by (simp add: handleKeyRelease_def Let_def)
qed

lemma fullInv_holdScore:
  "fullInv (s\<lparr>objects := (objects s)(r := (objects s r)\<lparr>holdScore := hs\<rparr>)\<rparr>) = fullInv s"
  by (simp add: fullInv_defs holdMapInv_holdScore) auto

lemma fullInv_holdStep:
  assumes "fullInv s" and "mapGet (activeHoldNotes s) l = Some r"
  shows "fullInv (holdStep t r s)"
proof (cases "holdStep t r s = s")
  case True
  then show ?thesis using assms(1) by simp
next
  case False
  then obtain p hs s1 where 2:
    "s1 = s \<or> s1 = score p Jhold (s\<lparr>objects := (objects s)(r := (objects s r)\<lparr>holdScore := hs\<rparr>)\<rparr>)"
    "holdStep t r s = s1 \<or> holdStep t r s = completeHoldNote r Jperfect s1"
    using holdStep_cases [of t r s] by blast
  have e: "(l, r) \<in> set (activeHoldNotes s)" using assms(2) by (rule mapGet_SomeD)
  then have lr: "lane (objects s r) = l" using assms(1) by (auto simp: fullInv_def holdMapInv_defs)
  have i1: "fullInv s1" using 2(1) assms(1) by (auto simp: fullInv_holdScore)
  have e1: "(lane (objects s1 r), r) \<in> set (activeHoldNotes s1)"
    using 2(1) e lr by (auto simp: score_def)
  show ?thesis
    using 2(2) i1 fullInv_completeHoldNote [OF i1 e1] by auto
qed

lemma fullInv_holdLoop: "fullInv s \<Longrightarrow> fullInv (holdLoop t ls s)"
proof (induction ls arbitrary: s)
  case Nil
  then show ?case by simp
next
  case (Cons l ls)
  then show ?case
    by (cases "mapGet (activeHoldNotes s) l") (auto intro: fullInv_holdStep)
qed

lemma fullInv_spawnLoop: "fullInv s \<Longrightarrow> fullInv (spawnLoop now gt cs s)"
proof (induction cs arbitrary: s)
  case Nil
  then show ?case by simp
next
  case (Cons c cs)
  have "fullInv (s'\<lparr>chartIndex := k\<rparr>) = fullInv s'" for s' k
    by (simp add: fullInv_defs holdMapInv_defs)
  then show ?case
    using Cons by (auto simp: Let_def intro!: Cons.IH fullInv_createNote)
qed

lemma fullInv_stopGame: "fullInv s \<Longrightarrow> fullInv (stopGame s)"
  using holdMapInv_stopGame [of s]
  by (simp add: fullInv_defs) (simp add: stopGame_def clearAllNotes_def Let_def)

lemma fullInv_slide: "fullInv s \<Longrightarrow> r < nextRef s \<Longrightarrow> fullInv (slide r s)"
  using holdMapInv_slide [of s r]
  by (simp add: fullInv_defs) (auto simp: slide_def Let_def score_def removeNote_def)

lemma fullInv_noteFlowTick: "fullInv s \<Longrightarrow> fullInv (noteFlowTick now s)"
proof -
  have a: "fullInv (s'\<lparr>noteId := k\<rparr>) = fullInv s'" for s' k
    by (simp add: fullInv_defs holdMapInv_defs)
  have b: "fullInv (s'\<lparr>patternIndex := k\<rparr>) = fullInv s'" for s' k
    by (simp add: fullInv_defs holdMapInv_defs)
  have c: "fullInv (s'\<lparr>flowActive := k\<rparr>) = fullInv s'" for s' k
    by (simp add: fullInv_defs holdMapInv_defs)
  have d: "fullInv s' \<Longrightarrow> fullInv (flowSpawn l ty dur now s')" for s' l ty dur
    by (simp add: flowSpawn_def a fullInv_createNote)
  assume "fullInv s"
  then show ?thesis
    by (simp add: noteFlowTick_def Let_def b c d)
qed

lemma fullInv_update: "fullInv s \<Longrightarrow> fullInv (update now s)"
proof -
  assume i: "fullInv s"
  have a: "fullInv (s'\<lparr>songProgress := k\<rparr>) = fullInv s'" for s' k
    by (simp add: fullInv_defs holdMapInv_defs)
  show ?thesis
    using i by (simp add: update_def Let_def spawnNotes_def updateHoldNotes_def a
        fullInv_spawnLoop fullInv_holdLoop fullInv_stopGame)
qed

lemma fullInv_step: "fullInv s \<Longrightarrow> noStackedHold s e \<Longrightarrow> fullInv (step e s)"
proof (cases e)
  case (EStart now)
  assume "fullInv s"
  then show ?thesis using EStart by (auto simp: fullInv_defs holdMapInv_defs startGame_def)
next
  case EPause
  assume "fullInv s"
  then show ?thesis using EPause by (auto simp: fullInv_defs holdMapInv_defs pauseGame_def)
next
  case EStop
  assume "fullInv s"
  then show ?thesis using EStop by (simp add: fullInv_stopGame)
next
  case (EFrame now)
  assume "fullInv s"
  then show ?thesis using EFrame by (simp add: fullInv_update)
next
  case (EInput l a now)
  assume "fullInv s" "noStackedHold s e"
  then show ?thesis using EInput fullInv_handleKeyPress [of s l now]
    by (cases a) (auto simp: handleInput_def fullInv_handleKeyRelease)
next
  case (ESlide r)
  assume "fullInv s"
  then show ?thesis using ESlide by (simp add: fullInv_slide)
next
  case EFlowStart
  assume "fullInv s"
  then show ?thesis using EFlowStart by (auto simp: fullInv_defs holdMapInv_defs startNoteFlow_def)
next
  case (EFlowTick now)
  assume "fullInv s"
  then show ?thesis using EFlowTick by (simp add: fullInv_noteFlowTick)
next
  case (ERemove r)
  assume i: "fullInv s"
  then have "holdMapInv (step e s)" using holdMapInv_step [of s e] by (simp add: fullInv_def)
  then show ?thesis
    using ERemove i by (auto simp: fullInv_defs removeNote_def)
qed

lemma fullInv_run: "fullInv s \<Longrightarrow> noStackedHolds es s \<Longrightarrow> fullInv (run es s)"
  unfolding run_def by (induction es arbitrary: s) (auto intro: fullInv_step)


text \<open>The entries stay live notes as long as no session starts over them.\<close>

lemma set_mapDelete_subset: "set (mapDelete k m) \<subseteq> set m"
  by (induction m) (auto split: if_splits)

lemma set_mapSet_subset: "set (mapSet k v m) \<subseteq> insert (k, v) (set m)"
  by (induction m) (auto split: if_splits)

lemma noNewEntry_refl [simp]: "noNewEntry s s"
  by (simp add: noNewEntry_def)

lemma noNewEntry_trans: "noNewEntry s s1 \<Longrightarrow> noNewEntry s1 s2 \<Longrightarrow> noNewEntry s s2"
  by (auto simp: noNewEntry_def)

lemma entriesLive_noNewEntry: "entriesLive s \<Longrightarrow> noNewEntry s s' \<Longrightarrow> entriesLive s'"
  by (fastforce simp: entriesLive_def noNewEntry_def)

lemma noNewEntry_score [simp]: "noNewEntry s (score p j s)"
  by (simp add: noNewEntry_def score_def)

lemma noNewEntry_createNote [simp]: "noNewEntry s (createNote l ht ty dur now s)"
  by (auto simp: noNewEntry_def createNote_def)

lemma noNewEntry_completeHoldNote [simp]: "noNewEntry s (completeHoldNote r j s)"
  using set_mapDelete_subset [of "lane (objects s r)" "activeHoldNotes s"]
  by (auto simp: noNewEntry_def completeHoldNote_def score_def Let_def)

lemma noNewEntry_handleKeyRelease [simp]: "noNewEntry s (handleKeyRelease l now s)"
  by (simp add: handleKeyRelease_def Let_def split: option.splits)

lemma noNewEntry_holdStep [simp]: "noNewEntry s (holdStep g r s)"
proof -
  have a: "noNewEntry s (score p Jhold (s\<lparr>objects := (objects s)(r := (objects s r)\<lparr>holdScore := hs\<rparr>)\<rparr>))"
    for p hs
    by (simp add: noNewEntry_def score_def)
  have "noNewEntry s (completeHoldNote r Jperfect s1)" if "noNewEntry s s1" for s1
    using that noNewEntry_completeHoldNote [of s1 r Jperfect] by (rule noNewEntry_trans)
  then show ?thesis
    using holdStep_cases [of g r s] a by (metis noNewEntry_refl)
qed

lemma noNewEntry_holdLoop: "noNewEntry s (holdLoop g ls s)"
proof (induction ls arbitrary: s)
  case Nil
  show ?case by simp
next
  case (Cons l ls)
  let ?s1 = "case mapGet (activeHoldNotes s) l of None \<Rightarrow> s | Some r \<Rightarrow> holdStep g r s"
  have "noNewEntry s ?s1" by (simp split: option.splits)
  then show ?case
    using Cons.IH [of ?s1] by (simp add: noNewEntry_trans)
qed

lemma noNewEntry_spawnLoop: "noNewEntry s (spawnLoop now gt cs s)"
proof (induction cs arbitrary: s)
  case Nil
  show ?case by simp
next
  case (Cons c cs)
  define s1 where "s1 = (if cTopLane c then createNote Top (cHitTime c) (cType c) (cDuration c) now s else s)"
  define s2 where "s2 = (if cBottomLane c then createNote Bottom (cHitTime c) (cType c) (cDuration c) now s1 else s1)"
  have "noNewEntry s s1" by (simp add: s1_def)
  moreover have "noNewEntry s1 s2" by (simp add: s2_def)
  moreover have "noNewEntry s2 (s2\<lparr>chartIndex := chartIndex s2 + 1\<rparr>)" by (simp add: noNewEntry_def)
  ultimately have "noNewEntry s (s2\<lparr>chartIndex := chartIndex s2 + 1\<rparr>)"
    by (blast intro: noNewEntry_trans)
  then show ?case
    using Cons.IH [of "s2\<lparr>chartIndex := chartIndex s2 + 1\<rparr>"]
    by (auto simp: Let_def s1_def s2_def intro: noNewEntry_trans)
qed

lemma entriesLive_stopGame: "entriesLive (stopGame s)"
  by (simp add: entriesLive_def stopGame_def Let_def)

lemma entriesLive_update: "entriesLive s \<Longrightarrow> entriesLive (update now s)"
proof -
  assume i: "entriesLive s"
  define gt where "gt = fl (now - startTime s)"
  define s1 where "s1 = s\<lparr>songProgress := fl (fl (gt / songDuration s) * 100)\<rparr>"
  define s2 where "s2 = spawnNotes now gt s1"
  define s3 where "s3 = updateHoldNotes gt s2"
  have "noNewEntry s s1" by (simp add: noNewEntry_def s1_def)
  moreover have "noNewEntry s1 s2" by (simp add: s2_def spawnNotes_def noNewEntry_spawnLoop)
  moreover have "noNewEntry s2 s3" by (simp add: s3_def updateHoldNotes_def noNewEntry_holdLoop)
  ultimately have "noNewEntry s s3" by (blast intro: noNewEntry_trans)
  then have "entriesLive s3" using i by (rule entriesLive_noNewEntry [rotated])
  moreover have "update now s = s \<or> update now s = stopGame s3 \<or> update now s = s3"
    by (simp add: update_def Let_def s3_def s2_def s1_def gt_def)
  ultimately show ?thesis
    using i entriesLive_stopGame [of s3] by metis
qed

lemma entriesLive_noteFlowTick: "entriesLive s \<Longrightarrow> entriesLive (noteFlowTick now s)"
proof -
  assume i: "entriesLive s"
  have f: "noNewEntry s' (flowSpawn l ty dur now s')" for s' l ty dur
    using noNewEntry_createNote [of s' l "rat_of_nat (noteId s')" ty dur now]
    by (simp add: noNewEntry_def flowSpawn_def)
  define pat where "pat = flowPatterns ! (patternIndex s mod length flowPatterns)"
  define s1 where "s1 = (if pat = 1 \<or> pat = 3 then flowSpawn Top Normal 0 now s else s)"
  define s2 where "s2 = (if pat = 2 \<or> pat = 3 then flowSpawn Bottom Normal 0 now s1 else s1)"
  define s3 where "s3 = (if pat = 4 then flowSpawn Top Hold 1800 now s2 else s2)"
  define s4 where "s4 = (if pat = 5 then flowSpawn Bottom Hold 1800 now s3 else s3)"
  have "noNewEntry s s1" "noNewEntry s1 s2" "noNewEntry s2 s3" "noNewEntry s3 s4"
    by (simp_all add: s1_def s2_def s3_def s4_def f)
  then have "noNewEntry s s4" by (blast intro: noNewEntry_trans)
  then have a: "noNewEntry s (s4\<lparr>patternIndex := patternIndex s4 + 1\<rparr>)"
    by (simp add: noNewEntry_def)
  have b: "noNewEntry s (s\<lparr>flowActive := False\<rparr>)" by (simp add: noNewEntry_def)
  have "noteFlowTick now s = s \<or> noteFlowTick now s = s\<lparr>flowActive := False\<rparr>
        \<or> noteFlowTick now s = s4\<lparr>patternIndex := patternIndex s4 + 1\<rparr>"
    unfolding noteFlowTick_def Let_def s4_def s3_def s2_def s1_def pat_def by presburger
  then have "noNewEntry s (noteFlowTick now s)"
    using a b by (metis noNewEntry_refl)
  then show ?thesis using i by (rule entriesLive_noNewEntry [rotated])
qed

lemma entriesLive_handleKeyPress: "entriesLive s \<Longrightarrow> entriesLive (handleKeyPress l now s)"
proof (cases "findHittableNote s l")
  case None
  assume "entriesLive s"
  then show ?thesis using None by (simp add: handleKeyPress_def entriesLive_def score_def)
next
  case (Some r)
  assume i: "entriesLive s"
  have r: "r \<in> set (liveNotes s)" using findHittableNote_Some [OF Some] by simp
  show ?thesis
    using i r Some set_mapSet_subset [of l r "activeHoldNotes s"]
    by (auto simp: handleKeyPress_def entriesLive_def score_def removeNote_def Let_def)
qed

lemma entriesLive_slide: "wellFormed s \<Longrightarrow> entriesLive s \<Longrightarrow> entriesLive (slide r s)"
  by (fastforce simp: wellFormed_def entriesLive_def slide_def score_def removeNote_def Let_def)

lemma entriesLive_step:
  assumes "wellFormed s" and "entriesLive s" and "noRestart s e"
  shows "entriesLive (step e s)"
proof (cases e)
  case (EStart now)
  then show ?thesis using assms by (simp add: noRestart_def entriesLive_def startGame_def)
next
  case EPause
  then show ?thesis using assms by (simp add: entriesLive_def pauseGame_def)
next
  case EStop
  then show ?thesis by (simp add: entriesLive_stopGame)
next
  case (EFrame now)
  then show ?thesis using assms by (simp add: entriesLive_update)
next
  case (EInput l a now)
  have "entriesLive (handleKeyRelease l now s)"
    using assms(2) noNewEntry_handleKeyRelease by (rule entriesLive_noNewEntry)
  then show ?thesis
    using EInput assms entriesLive_handleKeyPress [of s l now]
    by (cases a) (simp_all add: handleInput_def)
next
  case (ESlide r)
  then show ?thesis using assms by (simp add: entriesLive_slide)
next
  case EFlowStart
  then show ?thesis using assms by (simp add: entriesLive_def startNoteFlow_def)
next
  case (EFlowTick now)
  then show ?thesis using assms by (simp add: entriesLive_noteFlowTick)
next
  case (ERemove r)
  then show ?thesis using assms by (simp add: entriesLive_def removeNote_def)
qed

lemma entriesLive_run:
  "holdMapInv s \<Longrightarrow> entriesLive s \<Longrightarrow> noRestarts es s \<Longrightarrow> entriesLive (run es s)"
  unfolding run_def
proof (induction es arbitrary: s)
  case Nil
  then show ?case by simp
next
  case (Cons e es)
  have "holdMapInv (step e s)" using Cons.prems(1) by (rule holdMapInv_step)
  moreover have "entriesLive (step e s)"
    using Cons.prems by (intro entriesLive_step) (simp_all add: holdMapInv_def)
  ultimately show ?case using Cons.IH [of "step e s"] Cons.prems(3) by simp
qed

text \<open>A new engine satisfies all of it.\<close>

lemma constructor_inv: "fullInv (constructor m w ls) \<and> entriesLive (constructor m w ls)"
  by (simp add: fullInv_defs holdMapInv_defs entriesLive_def constructor_def)

text \<open>
  C9, as the claim states it: a lane has an entry if and only if its live hold note is
  holding, and every operation keeps it so.

  \<^item> Two hold notes of the top lane are hittable; the first press starts the first, the
    second press starts the second and replaces the entry, the release resolves the
    second. The first note is then live and holding, and the top lane has no entry.
  \<^item> A hold note of the top lane is pressed and the session is started again:
    \<^verbatim>\<open>startGame\<close> empties the notes and keeps the map, so the top lane has an entry and
    no live note at all.
\<close>

theorem hold_map_iff_counterexample:
  "wellFormed sTwoHolds \<and> entriesHolding sTwoHolds \<and> entriesLive sTwoHolds
   \<and> holdingHasEntry sTwoHolds
   \<and> 0 \<in> set (liveNotes sStacked) \<and> lane (objects sStacked 0) = Top
   \<and> ntype (objects sStacked 0) = Hold \<and> isHolding (objects sStacked 0)
   \<and> mapGet (activeHoldNotes sStacked) Top = None
   \<and> \<not> holdingHasEntry sStacked
   \<and> wellFormed sHold \<and> entriesHolding sHold \<and> entriesLive sHold \<and> holdingHasEntry sHold
   \<and> activeHoldNotes sRestarted = [(Top, 0)] \<and> liveNotes sRestarted = []
   \<and> \<not> entriesLive sRestarted"
  by (simp add: sStacked_def sTwoHolds_def sRestarted_def sHold_def run_def wellFormed_def
      unhitAttached_def entriesHolding_def entriesLive_def holdingHasEntry_def eval_defs)

text \<open>
  C9, amended. From a well-formed state in which the map has one entry per lane at most
  and every entry is a note of its lane in the holding state (a new engine is one, lemma
  \<open>constructor_inv\<close>), every sequence of events
  (presses, releases, frames with their forced completions, stops, starts, pauses and
  timers) leads to such a state again. Every entry is a live note after every sequence of
  events in which no session is started while the map has an entry; a stop empties the
  notes and the map together. Conversely every live holding note is the entry of its
  lane after every sequence of events in which no press starts a hold in a lane that
  already has an entry.
\<close>

theorem hold_map_invariant:
  assumes "wellFormed s" and "entriesHolding s"
  shows "wellFormed (run es s) \<and> entriesHolding (run es s)
       \<and> (entriesLive s \<and> noRestarts es s \<longrightarrow> entriesLive (run es s))
       \<and> (holdingHasEntry s \<and> noStackedHolds es s \<longrightarrow> holdingHasEntry (run es s))"
  using assms holdMapInv_run [of s es] fullInv_run [of s es] entriesLive_run [of s es]
  by (simp add: holdMapInv_def fullInv_def)

text \<open>A press starts a hold, a frame awards it, the session is stopped and started again:
  the map is empty at the start, and both side conditions hold.\<close>

theorem hold_map_invariant_witness:
  "wellFormed sHold \<and> entriesHolding sHold \<and> entriesLive sHold \<and> holdingHasEntry sHold
   \<and> noRestarts [EInput Top press 100, EFrame 400, EStop, EStart 900] sHold
   \<and> noStackedHolds [EInput Top press 100, EFrame 400, EStop, EStart 900] sHold
   \<and> activeHoldNotes (run [EInput Top press 100, EFrame 400] sHold) = [(Top, 0)]
   \<and> activeHoldNotes (run [EInput Top press 100, EFrame 400, EStop, EStart 900] sHold) = []
   \<and> entriesHolding (run [EInput Top press 100, EFrame 400, EStop, EStart 900] sHold)
   \<and> entriesLive (run [EInput Top press 100, EFrame 400, EStop, EStart 900] sHold)
   \<and> holdingHasEntry (run [EInput Top press 100, EFrame 400, EStop, EStart 900] sHold)"
proof -
  have a: "wellFormed sHold" and b: "entriesHolding sHold" and c: "holdingHasEntry sHold"
    and l: "entriesLive sHold"
    by (simp_all add: sHold_def wellFormed_def unhitAttached_def entriesHolding_def
        entriesLive_def holdingHasEntry_def eval_defs)
  have m: "activeHoldNotes (run [EInput Top press 100, EFrame 400] sHold) = [(Top, 0)]"
    "activeHoldNotes (run [EInput Top press 100, EFrame 400, EStop] sHold) = []"
    "activeHoldNotes (run [EInput Top press 100, EFrame 400, EStop, EStart 900] sHold) = []"
    by (simp_all add: sHold_def run_def eval_defs update_def spawnNotes_def updateHoldNotes_def
        holdStep_def createDemoChart_None stopGame_def clearAllNotes_def)
  have d: "noStackedHolds [EInput Top press 100, EFrame 400, EStop, EStart 900] sHold"
    by (simp add: sHold_def noStackedHold_def eval_defs)
  have e: "noRestarts [EInput Top press 100, EFrame 400, EStop, EStart 900] sHold"
    using m(2) by (simp add: noRestart_def run_def)
  show ?thesis
    using a b c l d e m
      hold_map_invariant [OF a b, of "[EInput Top press 100, EFrame 400, EStop, EStart 900]"]
    by simp
qed

end
